theory Spec2Isabelle
  imports Main "HOL-Library.Word" "HOL-Library.Sublist"
begin

section \<open>Go library functions called by \<open>internal/config/manager.go\<close>\<close>

text \<open>
  A Go string is a sequence of bytes; it is modelled as \<open>string\<close> (one \<open>char\<close> per
  byte). Go's \<open>int\<close> is taken to be 64 bits wide (\<open>intSize = 64\<close>), and is modelled as
  \<open>int\<close>: the manager only compares such values and never does arithmetic on them, and
  the one place that produces them from text (\<open>strconv.Atoi\<close>) has its range check
  written out.
\<close>

definition byte :: "char \<Rightarrow> nat" where
  "byte c = of_char c"

subsection \<open>\<open>strconv.Atoi\<close>\<close>

definition is_digit :: "char \<Rightarrow> bool" where
  "is_digit c = (48 \<le> byte c \<and> byte c \<le> 57)"

definition decimal :: "string \<Rightarrow> int" where
  "decimal ds = foldl (\<lambda>n ch. n * 10 + (int (byte ch) - 48)) 0 ds"

text \<open>
  \<open>strconv.Atoi\<close> accepts an optional sign (\<open>+\<close> or \<open>-\<close>) followed by at least one
  decimal digit and nothing else, and fails with a range error when the value does not
  fit a 64-bit \<open>int\<close>. \<open>None\<close> stands for a non-nil \<open>err\<close>.
\<close>

definition Atoi :: "string \<Rightarrow> int option" where
  "Atoi s =
     (let neg = (s \<noteq> [] \<and> hd s = CHR ''-'');
          ds = (if s \<noteq> [] \<and> (hd s = CHR ''-'' \<or> hd s = CHR ''+'') then tl s else s)
      in if ds = [] \<or> \<not> list_all is_digit ds then None
         else let n = (if neg then - decimal ds else decimal ds)
              in if n < - (2 ^ 63) \<or> 2 ^ 63 - 1 < n then None else Some n)"

subsection \<open>\<open>strings.ToLower\<close>\<close>

definition lower_byte :: "char \<Rightarrow> char" where
  "lower_byte c = (if 65 \<le> byte c \<and> byte c \<le> 90 then char_of (byte c + 32) else c)"

text \<open>
  \<open>strings.ToLower\<close> on a string of ASCII bytes maps \<open>A\<close>..\<open>Z\<close> to \<open>a\<close>..\<open>z\<close> and
  keeps every other byte. On a string with a byte above 127 Go lowers rune by rune
  instead; the only runes outside ASCII whose lower case is an ASCII byte are U+212A
  (to \<open>k\<close>) and U+0130 (to \<open>i\<close>), and neither letter occurs in a keyword of
  \<open>parseBoolean\<close>, so such a string is lowered to none of the keywords in Go, as it is
  here, where its bytes above 127 are kept.
\<close>

definition ToLower :: "string \<Rightarrow> string" where
  "ToLower s = map lower_byte s"

subsection \<open>\<open>strings.Split\<close> and \<open>strings.Join\<close>\<close>

text \<open>\<open>strings.Split\<close> with a separator of one byte: cut at every occurrence.\<close>

function Split :: "string \<Rightarrow> char \<Rightarrow> string list" where
  "Split s sep =
     (case dropWhile (\<lambda>c. c \<noteq> sep) s of
        [] \<Rightarrow> [s]
      | _ # rest \<Rightarrow> takeWhile (\<lambda>c. c \<noteq> sep) s # Split rest sep)"
  by pat_completeness auto
termination
proof (relation "measure (\<lambda>(s, sep). length s)")
  show "wf (measure (\<lambda>(s, sep). length s))" by simp
next
  fix s :: string and sep x21 x22
  assume "dropWhile (\<lambda>c. c \<noteq> sep) s = x21 # x22"
  then have "length (x21 # x22) \<le> length s"
    by (metis length_dropWhile_le)
  then show "((x22, sep), (s, sep)) \<in> measure (\<lambda>(s, sep). length s)"
    by simp
qed

fun Join :: "string list \<Rightarrow> string \<Rightarrow> string" where
  "Join [] sep = []"
| "Join [x] sep = x"
| "Join (x # y # ys) sep = x @ sep @ Join (y # ys) sep"

subsection \<open>\<open>strings.TrimSpace\<close>\<close>

text \<open>
  The UTF-8 encodings of the runes for which \<open>unicode.IsSpace\<close> holds: the six ASCII
  ones (tab, line feed, vertical tab, form feed, carriage return, space), U+0085,
  U+00A0, U+1680, U+2000 to U+200A, U+2028, U+2029, U+202F, U+205F and U+3000.
\<close>

definition white_space :: "string list" where
  "white_space =
     [[CHR 0x09], [CHR 0x0A], [CHR 0x0B], [CHR 0x0C], [CHR 0x0D], [CHR 0x20],
      [CHR 0xC2, CHR 0x85], [CHR 0xC2, CHR 0xA0], [CHR 0xE1, CHR 0x9A, CHR 0x80],
      [CHR 0xE2, CHR 0x80, CHR 0x80], [CHR 0xE2, CHR 0x80, CHR 0x81],
      [CHR 0xE2, CHR 0x80, CHR 0x82], [CHR 0xE2, CHR 0x80, CHR 0x83],
      [CHR 0xE2, CHR 0x80, CHR 0x84], [CHR 0xE2, CHR 0x80, CHR 0x85],
      [CHR 0xE2, CHR 0x80, CHR 0x86], [CHR 0xE2, CHR 0x80, CHR 0x87],
      [CHR 0xE2, CHR 0x80, CHR 0x88], [CHR 0xE2, CHR 0x80, CHR 0x89],
      [CHR 0xE2, CHR 0x80, CHR 0x8A], [CHR 0xE2, CHR 0x80, CHR 0xA8],
      [CHR 0xE2, CHR 0x80, CHR 0xA9], [CHR 0xE2, CHR 0x80, CHR 0xAF],
      [CHR 0xE2, CHR 0x81, CHR 0x9F], [CHR 0xE3, CHR 0x80, CHR 0x80]]"

text \<open>Removes from the front of \<open>s\<close>, again and again, a member of \<open>es\<close>.\<close>

function strip_prefixes :: "string list \<Rightarrow> string \<Rightarrow> string" where
  "strip_prefixes es s =
     (case List.find (\<lambda>e. e \<noteq> [] \<and> prefix e s) es of
        None \<Rightarrow> s
      | Some e \<Rightarrow> strip_prefixes es (drop (length e) s))"
  by pat_completeness auto
termination
proof (relation "measure (\<lambda>(es, s). length s)")
  show "wf (measure (\<lambda>(es, s). length s))" by simp
next
  fix es :: "string list" and s e :: string
  assume "List.find (\<lambda>e. e \<noteq> [] \<and> prefix e s) es = Some e"
  then have "e \<noteq> [] \<and> prefix e s"
    by (auto simp: find_Some_iff)
  then have "e \<noteq> []" and "s \<noteq> []"
    by auto
  then show "((es, drop (length e) s), (es, s)) \<in> measure (\<lambda>(es, s). length s)"
    by simp
qed

text \<open>
  \<open>strings.TrimSpace\<close> cuts the white space at the front (\<open>TrimLeftFunc\<close>), then at the
  end (\<open>TrimRightFunc\<close>, which decodes the last rune, again and again).
\<close>

definition TrimSpace :: "string \<Rightarrow> string" where
  "TrimSpace s =
     rev (strip_prefixes (map rev white_space) (rev (strip_prefixes white_space s)))"

subsection \<open>\<open>fmt.Sprintf\<close> with \<open>%d\<close>\<close>

fun digits :: "nat \<Rightarrow> string" where
  "digits n =
     (if n < 10 then [''0123456789'' ! n]
      else digits (n div 10) @ [''0123456789'' ! (n mod 10)])"

definition itoa :: "int \<Rightarrow> string" where
  "itoa i = (if i < 0 then CHR ''-'' # digits (nat (- i)) else digits (nat i))"

section \<open>The helper functions of the manager\<close>

definition parseInteger :: "string \<Rightarrow> int \<Rightarrow> int" where
  "parseInteger value defaultValue =
     (if value = [] then defaultValue
      else case Atoi value of Some parsed \<Rightarrow> parsed | None \<Rightarrow> defaultValue)"

definition parseBoolean :: "string \<Rightarrow> bool \<Rightarrow> bool" where
  "parseBoolean value defaultValue =
     (if value = [] then defaultValue
      else let lowerValue = ToLower value
           in if lowerValue = ''true'' \<or> lowerValue = ''1'' \<or> lowerValue = ''yes''
                   \<or> lowerValue = ''on'' then True
              else if lowerValue = ''false'' \<or> lowerValue = ''0'' \<or> lowerValue = ''no''
                   \<or> lowerValue = ''off'' then False
              else defaultValue)"

definition parseArray :: "string \<Rightarrow> string list \<Rightarrow> string list" where
  "parseArray value defaultValue =
     (if value = [] then defaultValue
      else let parts = Split value CHR '','';
               result = foldl (\<lambda>result part.
                                 let trimmed = TrimSpace part
                                 in if trimmed \<noteq> [] then result @ [trimmed] else result)
                              [] parts
           in if length result = 0 then defaultValue else result)"

text \<open>\<open>os.Getenv\<close> is the environment: a variable that is not set reads as \<open>''''\<close>.\<close>

definition getEnvOrDefault :: "(string \<Rightarrow> string) \<Rightarrow> string \<Rightarrow> string \<Rightarrow> string" where
  "getEnvOrDefault getenv key defaultValue =
     (let v = getenv key in if v \<noteq> [] then v else defaultValue)"

section \<open>The data model\<close>

text \<open>
  The section types live in \<open>pkg/types\<close>; their fields are the ones \<open>manager.go\<close>
  reads and writes. \<open>CORSEnabled\<close> is the field \<open>Enabled\<close> of \<open>CORSConfig\<close>.
\<close>

record Constants =
  MinPort :: int
  MaxPort :: int
  MinTimeout :: int
  DefaultTimeout :: int
  DefaultMaxSockets :: int
  DefaultMaxFreeSockets :: int

definition DefaultConstants :: Constants where
  "DefaultConstants =
     \<lparr>MinPort = 1, MaxPort = 65535, MinTimeout = 1, DefaultTimeout = 30,
      DefaultMaxSockets = 50, DefaultMaxFreeSockets = 10\<rparr>"

record ServerConfig =
  Port :: int
  Host :: string
  ReadTimeout :: int
  WriteTimeout :: int
  IdleTimeout :: int
  GracefulShutdownTimeout :: int

record KeysConfig =
  APIKeys :: "string list"
  StartIndex :: int
  BlacklistThreshold :: int
  MaxRetries :: int

record OpenAIConfig =
  BaseURL :: string
  BaseURLs :: "string list"
  RequestTimeout :: int
  ResponseTimeout :: int
  IdleConnTimeout :: int

record AuthConfig =
  Key :: string
  Enabled :: bool

record CORSConfig =
  CORSEnabled :: bool
  AllowedOrigins :: "string list"
  AllowedMethods :: "string list"
  AllowedHeaders :: "string list"
  AllowCredentials :: bool

record PerformanceConfig =
  MaxConcurrentRequests :: int
  EnableGzip :: bool

record LogConfig =
  Level :: string
  Format :: string
  EnableFile :: bool
  FilePath :: string
  EnableRequest :: bool

record Config =
  Server :: ServerConfig
  Keys :: KeysConfig
  OpenAI :: OpenAIConfig
  Auth :: AuthConfig
  CORS :: CORSConfig
  Performance :: PerformanceConfig
  Log :: LogConfig

record Manager =
  config :: Config
  roundRobinCounter :: "64 word"

text \<open>
  Modelled from the spec: the package \<open>internal/errors\<close> (\<open>ErrConfigValidation\<close>,
  \<open>NewAppErrorWithDetails\<close>) is not among the sources. The spec's
  \<open>ConfigValidationError\<close> is a single failure that carries the violation messages:
  an error value with its code, its message and its details, built from the three
  arguments as given.
\<close>

datatype ErrorCode = ErrConfigValidation

record AppError =
  Code :: ErrorCode
  Message :: string
  Details :: string

definition NewAppErrorWithDetails :: "ErrorCode \<Rightarrow> string \<Rightarrow> string \<Rightarrow> AppError" where
  "NewAppErrorWithDetails code message details =
     \<lparr>Code = code, Message = message, Details = details\<rparr>"

section \<open>Validation\<close>

text \<open>
  \<open>url.Parse\<close> belongs to Go's \<open>net/url\<close>; its verdict is a parameter of the model:
  \<open>urlParseErr u\<close> says that \<open>url.Parse(u)\<close> returns an error. \<open>validationErrors\<close>
  is the local slice of \<open>Validate\<close> when its checks are through, each \<open>e\<close> the slice
  after one more check; the log lines \<open>Validate\<close> writes are left out.
\<close>

definition validationErrors :: "(string \<Rightarrow> bool) \<Rightarrow> Manager \<Rightarrow> string list" where
  "validationErrors urlParseErr m =
     (let c = config m;
          e1 = (if Port (Server c) < MinPort DefaultConstants
                   \<or> Port (Server c) > MaxPort DefaultConstants
                then [] @ [''port must be between '' @ itoa (MinPort DefaultConstants)
                           @ ''-'' @ itoa (MaxPort DefaultConstants)]
                else []);
          e2 = (if StartIndex (Keys c) < 0
                then e1 @ [''start index cannot be less than 0''] else e1);
          e3 = (if BlacklistThreshold (Keys c) < 1
                then e2 @ [''blacklist threshold cannot be less than 1''] else e2);
          e4 = (if RequestTimeout (OpenAI c) < MinTimeout DefaultConstants
                then e3 @ [''request timeout cannot be less than ''
                           @ itoa (MinTimeout DefaultConstants) @ ''s'']
                else e3);
          e5 = (if length (BaseURLs (OpenAI c)) = 0
                then e4 @ [''at least one upstream API URL is required''] else e4);
          e6 = foldl (\<lambda>e baseURL.
                        if urlParseErr baseURL
                        then e @ [''invalid upstream API URL format: '' @ baseURL] else e)
                     e5 (BaseURLs (OpenAI c));
          e7 = (if MaxConcurrentRequests (Performance c) < 1
                then e6 @ [''max concurrent requests cannot be less than 1''] else e6)
      in e7)"

definition Validate :: "(string \<Rightarrow> bool) \<Rightarrow> Manager \<Rightarrow> AppError option" where
  "Validate urlParseErr m =
     (let es = validationErrors urlParseErr m
      in if length es > 0
         then Some (NewAppErrorWithDetails ErrConfigValidation
                      ''Configuration validation failed'' (Join es ''; ''))
         else None)"

section \<open>The manager\<close>

text \<open>
  \<open>getenv\<close> is the environment once \<open>godotenv.Load\<close> has run. The configuration
  \<open>NewManager\<close> assembles before it validates:
\<close>

definition assemble :: "(string \<Rightarrow> string) \<Rightarrow> Config" where
  "assemble getenv =
     \<lparr>Server =
        \<lparr>Port = parseInteger (getenv ''PORT'') 7860,
         Host = getEnvOrDefault getenv ''HOST'' ''0.0.0.0'',
         ReadTimeout = parseInteger (getenv ''SERVER_READ_TIMEOUT'') 120,
         WriteTimeout = parseInteger (getenv ''SERVER_WRITE_TIMEOUT'') 1800,
         IdleTimeout = parseInteger (getenv ''SERVER_IDLE_TIMEOUT'') 120,
         GracefulShutdownTimeout =
           parseInteger (getenv ''SERVER_GRACEFUL_SHUTDOWN_TIMEOUT'') 60\<rparr>,
      Keys =
        \<lparr>APIKeys = parseArray (getenv ''API_KEYS'') [],
         StartIndex = parseInteger (getenv ''START_INDEX'') 0,
         BlacklistThreshold = parseInteger (getenv ''BLACKLIST_THRESHOLD'') 1,
         MaxRetries = parseInteger (getenv ''MAX_RETRIES'') 3\<rparr>,
      OpenAI =
        \<lparr>BaseURL = [],
         BaseURLs = parseArray (getenv ''OPENAI_BASE_URL'') [''https://api.openai.com''],
         RequestTimeout =
           parseInteger (getenv ''REQUEST_TIMEOUT'') (DefaultTimeout DefaultConstants),
         ResponseTimeout = parseInteger (getenv ''RESPONSE_TIMEOUT'') 30,
         IdleConnTimeout = parseInteger (getenv ''IDLE_CONN_TIMEOUT'') 120\<rparr>,
      Auth = \<lparr>Key = getenv ''AUTH_KEY'', Enabled = (getenv ''AUTH_KEY'' \<noteq> [])\<rparr>,
      CORS =
        \<lparr>CORSEnabled = parseBoolean (getenv ''ENABLE_CORS'') True,
         AllowedOrigins = parseArray (getenv ''ALLOWED_ORIGINS'') [''*''],
         AllowedMethods =
           parseArray (getenv ''ALLOWED_METHODS'')
             [''GET'', ''POST'', ''PUT'', ''DELETE'', ''OPTIONS''],
         AllowedHeaders = parseArray (getenv ''ALLOWED_HEADERS'') [''*''],
         AllowCredentials = parseBoolean (getenv ''ALLOW_CREDENTIALS'') False\<rparr>,
      Performance =
        \<lparr>MaxConcurrentRequests = parseInteger (getenv ''MAX_CONCURRENT_REQUESTS'') 100,
         EnableGzip = parseBoolean (getenv ''ENABLE_GZIP'') True\<rparr>,
      Log =
        \<lparr>Level = getEnvOrDefault getenv ''LOG_LEVEL'' ''info'',
         Format = getEnvOrDefault getenv ''LOG_FORMAT'' ''text'',
         EnableFile = parseBoolean (getenv ''LOG_ENABLE_FILE'') False,
         FilePath = getEnvOrDefault getenv ''LOG_FILE_PATH'' ''logs/app.log'',
         EnableRequest = parseBoolean (getenv ''LOG_ENABLE_REQUEST'') True\<rparr>\<rparr>"

definition NewManager :: "(string \<Rightarrow> bool) \<Rightarrow> (string \<Rightarrow> string) \<Rightarrow> AppError + Manager" where
  "NewManager urlParseErr getenv =
     (let manager = \<lparr>config = assemble getenv, roundRobinCounter = 0\<rparr>
      in case Validate urlParseErr manager of
           Some err \<Rightarrow> Inl err
         | None \<Rightarrow> Inr manager)"

definition GetServerConfig :: "Manager \<Rightarrow> ServerConfig" where
  "GetServerConfig m = Server (config m)"

definition GetKeysConfig :: "Manager \<Rightarrow> KeysConfig" where
  "GetKeysConfig m = Keys (config m)"

text \<open>
  \<open>GetOpenAIConfig\<close> returns the section and the manager it leaves behind. \<open>None\<close> is
  a run-time panic: a division by zero or an index out of range. The length of a Go
  slice is an \<open>int\<close>, so \<open>uint64(len(config.BaseURLs))\<close> is its length as such, below
  \<open>2 ^ 63\<close>.
\<close>

definition GetOpenAIConfig :: "Manager \<Rightarrow> (OpenAIConfig \<times> Manager) option" where
  "GetOpenAIConfig m =
     (let config = OpenAI (config m)
      in if length (BaseURLs config) > 1
         then let counter = roundRobinCounter m + 1;
                  index = counter - 1;
                  n = (of_nat (length (BaseURLs config)) :: 64 word)
              in if n = 0 then None
                 else if \<not> unat (index mod n) < length (BaseURLs config) then None
                 else Some (config\<lparr>BaseURL := BaseURLs config ! unat (index mod n)\<rparr>,
                            m\<lparr>roundRobinCounter := counter\<rparr>)
         else if length (BaseURLs config) = 1
         then Some (config\<lparr>BaseURL := BaseURLs config ! 0\<rparr>, m)
         else Some (config, m))"

text \<open>
  One caller calling \<open>GetOpenAIConfig\<close> \<open>k\<close> times in a row: the values returned, in
  order, and the manager after the last call.
\<close>

fun calls :: "nat \<Rightarrow> Manager \<Rightarrow> (OpenAIConfig list \<times> Manager) option" where
  "calls 0 m = Some ([], m)"
| "calls (Suc k) m =
     (case GetOpenAIConfig m of
        None \<Rightarrow> None
      | Some (c, m') \<Rightarrow>
          (case calls k m' of
             None \<Rightarrow> None
           | Some (cs, m'') \<Rightarrow> Some (c # cs, m'')))"

text \<open>The base URL the \<open>k\<close>-th of these calls selects (\<open>k\<close> from 1).\<close>

definition selected :: "nat \<Rightarrow> Manager \<Rightarrow> string option" where
  "selected k m =
     (case calls k m of
        None \<Rightarrow> None
      | Some (cs, m') \<Rightarrow> if k = 0 then None else Some (BaseURL (cs ! (k - 1))))"

definition GetAuthConfig :: "Manager \<Rightarrow> AuthConfig" where
  "GetAuthConfig m = Auth (config m)"

definition GetCORSConfig :: "Manager \<Rightarrow> CORSConfig" where
  "GetCORSConfig m = CORS (config m)"

definition GetPerformanceConfig :: "Manager \<Rightarrow> PerformanceConfig" where
  "GetPerformanceConfig m = Performance (config m)"

definition GetLogConfig :: "Manager \<Rightarrow> LogConfig" where
  "GetLogConfig m = Log (config m)"

section \<open>Concurrent callers\<close>


text \<open>
  The manager the callers share; the callers inside a call, each with the \<open>index\<close> it
  holds (none when the call made no atomic add); and the history of the run: the
  pre-increment values the atomic adds gave, and the values the calls returned, each with
  its caller and in the order of the run.
\<close>

record world =
  manager :: Manager
  inflight :: "(nat \<times> 64 word option) list"
  observed :: "(nat \<times> 64 word) list"
  returned :: "(nat \<times> OpenAIConfig) list"



definition start :: "Manager \<Rightarrow> world" where
  "start m = \<lparr>manager = m, inflight = [], observed = [], returned = []\<rparr>"



section \<open>\<open>url.Parse\<close> of Go's \<open>net/url\<close>\<close>

text \<open>
  Whether \<open>url.Parse\<close> returns an error, function by function as \<open>net/url\<close> decides it
  (the URL it builds is left out: \<open>Validate\<close> throws it away). Some later releases of
  Go reject two more kinds of host: one in square brackets that is not an IPv6 address,
  and one with a colon outside square brackets other than the colon before its port. The
  model accepts them, as the earlier releases do; no URL in the theorems below has a host
  of either kind.
\<close>

definition alpha :: "char \<Rightarrow> bool" where
  "alpha c = ((65 \<le> byte c \<and> byte c \<le> 90) \<or> (97 \<le> byte c \<and> byte c \<le> 122))"

definition ishex :: "char \<Rightarrow> bool" where
  "ishex c = (is_digit c \<or> (97 \<le> byte c \<and> byte c \<le> 102) \<or> (65 \<le> byte c \<and> byte c \<le> 70))"

definition unhex :: "char \<Rightarrow> nat" where
  "unhex c =
     (if is_digit c then byte c - 48
      else if 97 \<le> byte c \<and> byte c \<le> 102 then byte c - 97 + 10
      else if 65 \<le> byte c \<and> byte c \<le> 70 then byte c - 65 + 10
      else 0)"

definition stringContainsCTLByte :: "string \<Rightarrow> bool" where
  "stringContainsCTLByte s = list_ex (\<lambda>b. byte b < 32 \<or> byte b = 127) s"

text \<open>
  \<open>getScheme\<close>: the scheme and what follows its colon; no scheme when the first byte
  that is not a letter comes before any colon and is no digit, \<open>+\<close>, \<open>-\<close> or \<open>.\<close>, or
  is one of these at the very front. \<open>None\<close> is the error \<open>missing protocol scheme\<close>.
\<close>

fun getScheme_from :: "nat \<Rightarrow> string \<Rightarrow> string \<Rightarrow> (string \<times> string) option" where
  "getScheme_from i [] rawURL = Some ([], rawURL)"
| "getScheme_from i (c # cs) rawURL =
     (if alpha c then getScheme_from (Suc i) cs rawURL
      else if is_digit c \<or> c = CHR ''+'' \<or> c = CHR ''-'' \<or> c = CHR ''.''
      then (if i = 0 then Some ([], rawURL) else getScheme_from (Suc i) cs rawURL)
      else if c = CHR '':''
      then (if i = 0 then None else Some (take i rawURL, cs))
      else Some ([], rawURL))"

definition getScheme :: "string \<Rightarrow> (string \<times> string) option" where
  "getScheme rawURL = getScheme_from 0 rawURL rawURL"

datatype encoding = encodePath | encodeHost | encodeZone | encodeUserPassword | encodeFragment

text \<open>\<open>shouldEscape(c, encodeHost)\<close>: the ASCII bytes a host may not hold as they are.\<close>

definition shouldEscapeHost :: "char \<Rightarrow> bool" where
  "shouldEscapeHost c =
     (\<not> (alpha c \<or> is_digit c
          \<or> c \<in> set (''!$&()*+,;=:[]<>-_.~'' @ [CHR 0x27, CHR 0x22])))"

text \<open>
  \<open>unescape\<close> fails on a \<open>%\<close> that two hexadecimal digits do not follow; in a host
  also on an escape of an ASCII byte other than \<open>%25\<close> and on a byte a host may not
  hold; in the zone of an IPv6 literal on an escape of such a byte other than the space.
\<close>

fun unescape_err :: "encoding \<Rightarrow> string \<Rightarrow> bool" where
  "unescape_err mode [] = False"
| "unescape_err mode (c # s) =
     (if c = CHR ''%''
      then (case s of
              h1 # h2 # rest \<Rightarrow>
                if \<not> ishex h1 \<or> \<not> ishex h2 then True
                else if mode = encodeHost \<and> unhex h1 < 8 \<and> [h1, h2] \<noteq> ''25'' then True
                else if mode = encodeZone \<and> [h1, h2] \<noteq> ''25''
                        \<and> unhex h1 * 16 + unhex h2 \<noteq> 32
                        \<and> shouldEscapeHost (char_of (unhex h1 * 16 + unhex h2)) then True
                else unescape_err mode rest
            | _ \<Rightarrow> True)
      else if (mode = encodeHost \<or> mode = encodeZone) \<and> byte c < 128 \<and> shouldEscapeHost c
      then True
      else unescape_err mode s)"

definition validOptionalPort :: "string \<Rightarrow> bool" where
  "validOptionalPort port = (port = [] \<or> (hd port = CHR '':'' \<and> list_all is_digit (tl port)))"

definition validUserinfo :: "string \<Rightarrow> bool" where
  "validUserinfo s =
     list_all (\<lambda>c. alpha c \<or> is_digit c \<or> c \<in> set (''-._:~!$&()*+,;=%@'' @ [CHR 0x27])) s"

text \<open>\<open>strings.Index\<close> and \<open>strings.LastIndex\<close> (of one byte); \<open>None\<close> is \<open>-1\<close>.\<close>

fun Index :: "string \<Rightarrow> string \<Rightarrow> nat option" where
  "Index [] sub = (if sub = [] then Some 0 else None)"
| "Index (c # s) sub =
     (if prefix sub (c # s) then Some 0 else map_option Suc (Index s sub))"

fun LastIndexByte :: "string \<Rightarrow> char \<Rightarrow> nat option" where
  "LastIndexByte [] c = None"
| "LastIndexByte (x # xs) c =
     (case LastIndexByte xs c of
        Some i \<Rightarrow> Some (Suc i)
      | None \<Rightarrow> if x = c then Some 0 else None)"

definition parseHost_err :: "string \<Rightarrow> bool" where
  "parseHost_err host =
     (if prefix ''['' host
      then (case LastIndexByte host CHR '']'' of
              None \<Rightarrow> True
            | Some i \<Rightarrow>
                if \<not> validOptionalPort (drop (i + 1) host) then True
                else (case Index (take i host) ''%25'' of
                        Some zone \<Rightarrow>
                          unescape_err encodeHost (take zone host)
                          \<or> unescape_err encodeZone (drop zone (take i host))
                          \<or> unescape_err encodeHost (drop i host)
                      | None \<Rightarrow> unescape_err encodeHost host))
      else (case LastIndexByte host CHR '':'' of
              Some i \<Rightarrow>
                if \<not> validOptionalPort (drop i host) then True
                else unescape_err encodeHost host
            | None \<Rightarrow> unescape_err encodeHost host))"

definition parseAuthority_err :: "string \<Rightarrow> bool" where
  "parseAuthority_err authority =
     (case LastIndexByte authority CHR ''@'' of
        None \<Rightarrow> parseHost_err authority
      | Some i \<Rightarrow>
          if parseHost_err (drop (i + 1) authority) then True
          else let userinfo = take i authority
               in if \<not> validUserinfo userinfo then True
                  else if CHR '':'' \<notin> set userinfo
                  then unescape_err encodeUserPassword userinfo
                  else unescape_err encodeUserPassword (takeWhile (\<lambda>c. c \<noteq> CHR '':'') userinfo)
                       \<or> unescape_err encodeUserPassword
                            (drop 1 (dropWhile (\<lambda>c. c \<noteq> CHR '':'') userinfo)))"

text \<open>
  \<open>parse(rawURL, false)\<close>, on the URL without its fragment: the query is cut off at the
  first \<open>?\<close> and not looked at; a URL with a scheme and no leading slash is opaque, and
  passes; without a scheme, a colon in the first segment of the path is an error; after
  \<open>//\<close> comes the authority, up to the next slash, then the path.
\<close>

definition parse_err :: "string \<Rightarrow> bool" where
  "parse_err rawURL =
     (if stringContainsCTLByte rawURL then True
      else if rawURL = ''*'' then False
      else case getScheme rawURL of
             None \<Rightarrow> True
           | Some (scheme, afterScheme) \<Rightarrow>
               let rest = takeWhile (\<lambda>c. c \<noteq> CHR ''?'') afterScheme
               in if \<not> prefix ''/'' rest \<and> scheme \<noteq> [] then False
                  else if \<not> prefix ''/'' rest
                          \<and> CHR '':'' \<in> set (takeWhile (\<lambda>c. c \<noteq> CHR ''/'') rest) then True
                  else if (scheme \<noteq> [] \<or> \<not> prefix ''///'' rest) \<and> prefix ''//'' rest
                  then let authority = takeWhile (\<lambda>c. c \<noteq> CHR ''/'') (drop 2 rest);
                           path = dropWhile (\<lambda>c. c \<noteq> CHR ''/'') (drop 2 rest)
                       in if parseAuthority_err authority then True
                          else unescape_err encodePath path
                  else unescape_err encodePath rest)"

text \<open>\<open>url.Parse\<close>: the fragment is cut off at the first \<open>#\<close> and unescaped last.\<close>

definition url_Parse_err :: "string \<Rightarrow> bool" where
  "url_Parse_err rawURL =
     (let u = takeWhile (\<lambda>c. c \<noteq> CHR ''#'') rawURL;
          frag = drop 1 (dropWhile (\<lambda>c. c \<noteq> CHR ''#'') rawURL)
      in if parse_err u then True
         else if frag = [] then False
         else unescape_err encodeFragment frag)"

section \<open>Notions of the specification\<close>

text \<open>
  A case-insensitive match, said without \<open>ToLower\<close>: two strings of the same length
  whose bytes agree, or are the two cases of one letter, position by position.
\<close>

definition is_letter :: "char \<Rightarrow> bool" where
  "is_letter c = ((65 \<le> byte c \<and> byte c \<le> 90) \<or> (97 \<le> byte c \<and> byte c \<le> 122))"

definition same_letter :: "char \<Rightarrow> char \<Rightarrow> bool" where
  "same_letter a b =
     (a = b \<or> (is_letter a \<and> is_letter b \<and> (byte a = byte b + 32 \<or> byte b = byte a + 32)))"

definition eq_ignore_case :: "string \<Rightarrow> string \<Rightarrow> bool" where
  "eq_ignore_case v w = list_all2 same_letter v w"

definition truthy :: "string list" where
  "truthy = [''true'', ''1'', ''yes'', ''on'']"

definition falsy :: "string list" where
  "falsy = [''false'', ''0'', ''no'', ''off'']"

text \<open>
  A URL whose scheme and host are well formed, in the words of the specification, read
  as: a scheme (a letter, then letters, digits, \<open>+\<close>, \<open>-\<close> or \<open>.\<close>), then \<open>://\<close>,
  then a host that is not empty and holds no space, up to the next \<open>/\<close>, \<open>?\<close> or \<open>#\<close>.
\<close>

definition scheme_host_well_formed :: "string \<Rightarrow> bool" where
  "scheme_host_well_formed u =
     (case Index u ''://'' of
        None \<Rightarrow> False
      | Some i \<Rightarrow>
          let scheme = take i u;
              host = takeWhile (\<lambda>c. c \<notin> set ''/?#'') (drop (i + 3) u)
          in scheme \<noteq> [] \<and> alpha (hd scheme)
             \<and> list_all (\<lambda>c. alpha c \<or> is_digit c \<or> c \<in> set ''+-.'') scheme
             \<and> host \<noteq> [] \<and> CHR '' '' \<notin> set host)"

text \<open>
  The list parser in the words of the specification: split on commas, trim each element,
  discard the empty ones.
\<close>

definition split_trim_filter :: "string \<Rightarrow> string list" where
  "split_trim_filter v = filter (\<lambda>p. p \<noteq> []) (map TrimSpace (Split v CHR '',''))"

section \<open>Concrete configurations\<close>

text \<open>
  One of the errors of \<open>url.Parse\<close>, \<open>missing protocol scheme\<close>: the URL starts with a
  colon. It is a part of \<open>url_Parse_err\<close> and not the whole of it, since \<open>url.Parse\<close>
  rejects other URLs too. It stands for \<open>url.Parse\<close> only in the configurations of the
  claims that are not about the URLs, whose URLs (\<open>https://api.openai.com\<close>,
  \<open>http://a\<close>, \<open>http://b\<close>, \<open>http://c\<close>) \<open>url_Parse_err\<close> accepts as it does.
\<close>

definition missing_scheme :: "string \<Rightarrow> bool" where
  "missing_scheme u = (u \<noteq> [] \<and> hd u = CHR '':'')"

text \<open>The manager \<open>NewManager\<close> builds from an environment, before it validates it.\<close>

definition candidate :: "(string \<Rightarrow> string) \<Rightarrow> Manager" where
  "candidate getenv = \<lparr>config = assemble getenv, roundRobinCounter = 0\<rparr>"

text \<open>A manager with another upstream list, as a test of \<open>Validate\<close> sets one up.\<close>

definition with_urls :: "string list \<Rightarrow> Manager \<Rightarrow> Manager" where
  "with_urls us m = m\<lparr>config := (config m)\<lparr>OpenAI := (OpenAI (config m))\<lparr>BaseURLs := us\<rparr>\<rparr>\<rparr>"

text \<open>A manager with other read, write and idle timeouts of the server.\<close>

definition with_timeouts :: "int \<Rightarrow> int \<Rightarrow> int \<Rightarrow> Manager \<Rightarrow> Manager" where
  "with_timeouts r w i m =
     m\<lparr>config := (config m)
         \<lparr>Server := (Server (config m))
            \<lparr>ReadTimeout := r, WriteTimeout := w, IdleTimeout := i\<rparr>\<rparr>\<rparr>"

section \<open>Lemmas about the library functions and the helpers\<close>

lemma itoa_1: "itoa 1 = ''1''"
  by (simp add: itoa_def)

lemma itoa_65535: "itoa 65535 = ''65535''"
  by (simp add: itoa_def)

lemma foldl_append_if:
  "foldl (\<lambda>e x. if p x then e @ [f x] else e) e0 xs = e0 @ map f (filter p xs)"
  by (induction xs arbitrary: e0) auto

lemma validationErrors_eq:
  "validationErrors p m =
     (if Port (Server (config m)) < 1 \<or> 65535 < Port (Server (config m))
      then [''port must be between 1-65535''] else [])
     @ (if StartIndex (Keys (config m)) < 0
        then [''start index cannot be less than 0''] else [])
     @ (if BlacklistThreshold (Keys (config m)) < 1
        then [''blacklist threshold cannot be less than 1''] else [])
     @ (if RequestTimeout (OpenAI (config m)) < 1
        then [''request timeout cannot be less than 1s''] else [])
     @ (if BaseURLs (OpenAI (config m)) = []
        then [''at least one upstream API URL is required''] else [])
     @ map (\<lambda>u. ''invalid upstream API URL format: '' @ u)
         (filter p (BaseURLs (OpenAI (config m))))
     @ (if MaxConcurrentRequests (Performance (config m)) < 1
        then [''max concurrent requests cannot be less than 1''] else [])"
  unfolding validationErrors_def Let_def foldl_append_if
  by (simp add: DefaultConstants_def itoa_1 itoa_65535 del: digits.simps)

lemma parseArray_eq:
  "v \<noteq> [] \<Longrightarrow> parseArray v d = (if split_trim_filter v = [] then d else split_trim_filter v)"
proof -
  have "foldl (\<lambda>result part. let trimmed = TrimSpace part
                 in if trimmed \<noteq> [] then result @ [trimmed] else result) e0 ps
        = e0 @ filter (\<lambda>p. p \<noteq> []) (map TrimSpace ps)" for e0 ps
    by (induction ps arbitrary: e0) (auto simp: Let_def)
  then show "v \<noteq> [] \<Longrightarrow> parseArray v d = (if split_trim_filter v = [] then d else split_trim_filter v)"
    by (simp add: parseArray_def split_trim_filter_def Let_def)
qed

lemma sublist_Join: "x \<in> set xs \<Longrightarrow> sublist x (Join xs sep)"
proof (induction xs sep rule: Join.induct)
  case (3 a b ys sep)
  show ?case
  proof (cases "x = a")
    case True
    then show ?thesis by simp
  next
    case False
    with 3 have "sublist x (Join (b # ys) sep)" by simp
    then obtain ps ss where "Join (b # ys) sep = ps @ x @ ss"
      by (auto simp: sublist_def)
    then have "Join (a # b # ys) sep = (a @ sep @ ps) @ x @ ss" by simp
    then show ?thesis unfolding sublist_def by blast
  qed
qed simp_all

lemma lower_same:
  assumes "\<not> (65 \<le> byte b \<and> byte b \<le> 90)"
  shows "same_letter a b \<longleftrightarrow> lower_byte a = b"
proof
  assume "same_letter a b"
  then consider "a = b" | "is_letter a" "is_letter b" "byte a = byte b + 32"
    | "is_letter a" "is_letter b" "byte b = byte a + 32"
    by (auto simp: same_letter_def)
  then show "lower_byte a = b"
  proof cases
    case 1
    with assms show ?thesis by (auto simp: lower_byte_def)
  next
    case 2
    with assms show ?thesis by (auto simp: is_letter_def)
  next
    case 3
    with assms have up: "65 \<le> byte a \<and> byte a \<le> 90" by (auto simp: is_letter_def)
    have "char_of (byte b) = b" by (simp add: byte_def)
    with 3 up show ?thesis by (simp add: lower_byte_def)
  qed
next
  assume l: "lower_byte a = b"
  show "same_letter a b"
  proof (cases "65 \<le> byte a \<and> byte a \<le> 90")
    case True
    with l have "b = char_of (byte a + 32)" by (simp add: lower_byte_def)
    then have "byte b = (byte a + 32) mod 256" by (simp add: byte_def)
    with True have "byte b = byte a + 32" by simp
    with True show ?thesis by (simp add: same_letter_def is_letter_def)
  next
    case False
    with l show ?thesis by (simp add: lower_byte_def same_letter_def)
  qed
qed

lemma eq_ignore_case_ToLower:
  assumes "\<forall>c\<in>set w. \<not> (65 \<le> byte c \<and> byte c \<le> 90)"
  shows "eq_ignore_case v w \<longleftrightarrow> ToLower v = w"
  using assms
proof (induction v arbitrary: w)
  case Nil
  then show ?case by (auto simp: eq_ignore_case_def ToLower_def)
next
  case (Cons a v)
  show ?case
  proof (cases w)
    case Nil
    then show ?thesis by (simp add: eq_ignore_case_def ToLower_def)
  next
    case (Cons b w')
    with Cons.prems have nb: "\<not> (65 \<le> byte b \<and> byte b \<le> 90)"
      and nw: "\<forall>c\<in>set w'. \<not> (65 \<le> byte c \<and> byte c \<le> 90)" by auto
    from Cons.IH [OF nw] lower_same [OF nb, of a] Cons show ?thesis
      by (simp add: eq_ignore_case_def ToLower_def)
  qed
qed

subsection \<open>Splitting, trimming and matching\<close>

declare Split.simps [simp del] strip_prefixes.simps [simp del]

lemma Split_last:
  "dropWhile (\<lambda>c. c \<noteq> sep) s = [] \<Longrightarrow> Split s sep = [s]"
  by (simp only: Split.simps [of s sep] list.simps)

lemma Split_next:
  "dropWhile (\<lambda>c. c \<noteq> sep) s = a # rest
     \<Longrightarrow> Split s sep = takeWhile (\<lambda>c. c \<noteq> sep) s # Split rest sep"
  by (simp only: Split.simps [of s sep] list.simps)

lemma strip_prefixes_done:
  "List.find (\<lambda>e. e \<noteq> [] \<and> prefix e s) es = None \<Longrightarrow> strip_prefixes es s = s"
  by (simp only: strip_prefixes.simps [of es s] option.simps)

lemma strip_prefixes_next:
  "List.find (\<lambda>e. e \<noteq> [] \<and> prefix e s) es = Some e
     \<Longrightarrow> strip_prefixes es s = strip_prefixes es (drop (length e) s)"
  by (simp only: strip_prefixes.simps [of es s] option.simps)

lemma Split_no_sep: "p \<in> set (Split s sep) \<Longrightarrow> sep \<notin> set p"
proof (induction s sep arbitrary: p rule: Split.induct)
  case (1 s sep)
  show ?case
  proof (cases "dropWhile (\<lambda>c. c \<noteq> sep) s")
    case Nil
    with "1.prems" have "p = s" by (simp add: Split_last)
    moreover from Nil have "sep \<notin> set s" by (auto simp: dropWhile_eq_Nil_conv)
    ultimately show ?thesis by simp
  next
    case (Cons a rest)
    with "1.prems" consider "p = takeWhile (\<lambda>c. c \<noteq> sep) s" | "p \<in> set (Split rest sep)"
      by (auto simp: Split_next [OF Cons])
    then show ?thesis
    proof cases
      case 1
      then show ?thesis by (auto dest: set_takeWhileD)
    next
      case 2
      with "1.IH" Cons show ?thesis by blast
    qed
  qed
qed

lemma Split_not_Nil: "Split s sep \<noteq> []"
proof (cases "dropWhile (\<lambda>c. c \<noteq> sep) s")
  case Nil
  then show ?thesis by (simp add: Split_last)
next
  case (Cons a rest)
  then show ?thesis by (simp add: Split_next [OF Cons])
qed

lemma Join_Cons: "ps \<noteq> [] \<Longrightarrow> Join (p # ps) sep = p @ sep @ Join ps sep"
  by (cases ps) simp_all

lemma Join_Split: "Join (Split s sep) [sep] = s"
proof (induction s sep rule: Split.induct)
  case (1 s sep)
  show ?case
  proof (cases "dropWhile (\<lambda>c. c \<noteq> sep) s")
    case Nil
    then show ?thesis by (simp add: Split_last)
  next
    case (Cons a rest)
    then have "dropWhile (\<lambda>c. c \<noteq> sep) s \<noteq> []" by simp
    then have "\<not> hd (dropWhile (\<lambda>c. c \<noteq> sep) s) \<noteq> sep" by (rule hd_dropWhile)
    with Cons have a: "a = sep" by simp
    have "takeWhile (\<lambda>c. c \<noteq> sep) s @ dropWhile (\<lambda>c. c \<noteq> sep) s = s"
      by (rule takeWhile_dropWhile_id)
    then have s: "takeWhile (\<lambda>c. c \<noteq> sep) s @ [sep] @ rest = s"
      by (simp only: Cons a append_Cons append_Nil)
    from "1.IH" Cons have "Join (Split rest sep) [sep] = rest" by blast
    then have "Join (Split s sep) [sep] = takeWhile (\<lambda>c. c \<noteq> sep) s @ [sep] @ rest"
      by (simp add: Split_next [OF Cons] Join_Cons Split_not_Nil)
    then show ?thesis by (simp only: s)
  qed
qed

lemma strip_prefixes_no_prefix:
  "e \<in> set es \<Longrightarrow> e \<noteq> [] \<Longrightarrow> \<not> prefix e (strip_prefixes es s)"
proof (induction es s rule: strip_prefixes.induct)
  case (1 es s)
  show ?case
  proof (cases "List.find (\<lambda>e. e \<noteq> [] \<and> prefix e s) es")
    case None
    from None "1.prems" have "\<not> prefix e s"
      by (auto simp: find_None_iff)
    with None show ?thesis
      by (simp add: strip_prefixes_done)
  next
    case (Some x)
    with "1.IH" "1.prems" show ?thesis
      by (simp add: strip_prefixes_next [OF Some])
  qed
qed

lemma strip_prefixes_decomp:
  "\<exists>ws. set ws \<subseteq> set es \<and> s = concat ws @ strip_prefixes es s"
proof (induction es s rule: strip_prefixes.induct)
  case (1 es s)
  show ?case
  proof (cases "List.find (\<lambda>e. e \<noteq> [] \<and> prefix e s) es")
    case None
    then have "set [] \<subseteq> set es \<and> s = concat [] @ strip_prefixes es s"
      by (simp add: strip_prefixes_done)
    then show ?thesis by blast
  next
    case (Some x)
    then have x: "x \<in> set es" "prefix x s"
      by (auto simp: find_Some_iff)
    from "1.IH" Some obtain ws where ws: "set ws \<subseteq> set es"
      "drop (length x) s = concat ws @ strip_prefixes es (drop (length x) s)" by blast
    from x(2) have "s = x @ drop (length x) s"
      by (auto simp: prefix_def)
    with ws(2) have "s = concat (x # ws) @ strip_prefixes es s"
      by (simp add: strip_prefixes_next [OF Some])
    moreover from x(1) ws(1) have "set (x # ws) \<subseteq> set es" by simp
    ultimately show ?thesis by blast
  qed
qed

lemma white_space_nonempty: "e \<in> set white_space \<Longrightarrow> e \<noteq> []"
  by (auto simp: white_space_def)

lemma TrimSpace_decomp:
  "\<exists>ls rs. set ls \<subseteq> set white_space \<and> set rs \<subseteq> set white_space
           \<and> s = concat ls @ TrimSpace s @ concat rs"
proof -
  let ?t = "strip_prefixes white_space s"
  from strip_prefixes_decomp [of white_space s] obtain ls
    where ls: "set ls \<subseteq> set white_space" "s = concat ls @ ?t" by blast
  from strip_prefixes_decomp [of "map rev white_space" "rev ?t"] obtain ws
    where ws: "set ws \<subseteq> set (map rev white_space)"
      "rev ?t = concat ws @ strip_prefixes (map rev white_space) (rev ?t)" by blast
  from ws(2) have "?t = rev (strip_prefixes (map rev white_space) (rev ?t)) @ rev (concat ws)"
    by (metis rev_append rev_rev_ident)
  then have t: "?t = TrimSpace s @ concat (map rev (rev ws))"
    by (simp add: TrimSpace_def rev_concat)
  from ws(1) have "set (map rev (rev ws)) \<subseteq> set white_space"
    by (auto simp: image_iff) 
  with ls t show ?thesis by (metis append.assoc)
qed

lemma TrimSpace_trimmed:
  assumes "e \<in> set white_space"
  shows "\<not> prefix e (TrimSpace s)" and "\<not> suffix e (TrimSpace s)"
proof -
  let ?t = "strip_prefixes white_space s"
  let ?r = "strip_prefixes (map rev white_space) (rev ?t)"
  from assms have ne: "e \<noteq> []" by (rule white_space_nonempty)
  from strip_prefixes_decomp [of "map rev white_space" "rev ?t"] obtain ws
    where "rev ?t = concat ws @ ?r" by blast
  then have "?t = rev ?r @ rev (concat ws)"
    by (metis rev_append rev_rev_ident)
  then have "prefix (TrimSpace s) ?t"
    by (metis TrimSpace_def prefixI)
  moreover from strip_prefixes_no_prefix [OF assms ne] have "\<not> prefix e ?t" .
  ultimately show "\<not> prefix e (TrimSpace s)"
    using prefix_order.trans by blast
  from assms ne have "rev e \<in> set (map rev white_space)" "rev e \<noteq> []" by simp_all
  then have "\<not> prefix (rev e) ?r" by (rule strip_prefixes_no_prefix)
  then show "\<not> suffix e (TrimSpace s)"
    by (simp add: TrimSpace_def suffix_to_prefix)
qed

lemma keyword_lower:
  "w \<in> set (truthy @ falsy) \<Longrightarrow> \<forall>c\<in>set w. \<not> (65 \<le> byte c \<and> byte c \<le> 90)"
  by (auto simp: truthy_def falsy_def byte_def)

lemma keyword_match:
  "w \<in> set (truthy @ falsy) \<Longrightarrow> eq_ignore_case s w \<longleftrightarrow> ToLower s = w"
  by (rule eq_ignore_case_ToLower) (rule keyword_lower)

lemma truthy_match: "(\<exists>w\<in>set truthy. eq_ignore_case s w) \<longleftrightarrow> ToLower s \<in> set truthy"
  using keyword_match [of _ s] by auto

lemma falsy_match: "(\<exists>w\<in>set falsy. eq_ignore_case s w) \<longleftrightarrow> ToLower s \<in> set falsy"
  using keyword_match [of _ s] by auto

lemma parseBoolean_eq:
  "parseBoolean s b =
     (if ToLower s \<in> set truthy then True else if ToLower s \<in> set falsy then False else b)"
proof (cases "s = []")
  case True
  then show ?thesis
    by (simp add: parseBoolean_def ToLower_def truthy_def falsy_def)
next
  case False
  then show ?thesis
    by (simp add: parseBoolean_def Let_def truthy_def falsy_def)
qed

lemma truthy_not_falsy: "x \<in> set truthy \<Longrightarrow> x \<notin> set falsy"
  by (auto simp: truthy_def falsy_def)

lemma parser_samples:
  "Atoi ''12a'' = None" "Atoi ''70000'' = Some 70000"
  "eq_ignore_case ''YeS'' ''yes''" "eq_ignore_case ''oFF'' ''off''"
  "ToLower ''maybe'' = ''maybe''"
  by code_simp+

lemma list_samples:
  "split_trim_filter '' , ,'' = []" "split_trim_filter ''a, ,b'' = [''a'', ''b'']"
  "Split ''a, ,b'' CHR '','' = [''a'', '' '', ''b'']" "TrimSpace ''  a b  '' = ''a b''"
  "parseArray '' , ,'' [] = []"
  "TrimSpace [CHR 0xC2, CHR 0xA0, CHR ''a'', CHR 0x09, CHR 0xE3, CHR 0x80, CHR 0x80] = ''a''"
  by code_simp+

section \<open>Lemmas about the round-robin selection\<close>

lemma uint64_len:
  assumes "0 < n" "n < 2 ^ 63"
  shows "(of_nat n :: 64 word) \<noteq> 0" and "unat (c mod (of_nat n :: 64 word)) = unat c mod n"
proof -
  have n: "unat (of_nat n :: 64 word) = n"
    using assms by (simp add: unat_of_nat)
  with assms show "(of_nat n :: 64 word) \<noteq> 0"
    by (metis less_numeral_extra(3) unat_0)
  show "unat (c mod (of_nat n :: 64 word)) = unat c mod n"
    by (simp add: unat_mod_distrib n)
qed

lemma GetOpenAIConfig_step:
  assumes "2 \<le> length (BaseURLs (OpenAI (config m)))"
    and "length (BaseURLs (OpenAI (config m))) < 2 ^ 63"
  shows "GetOpenAIConfig m =
           Some ((OpenAI (config m))
                   \<lparr>BaseURL := BaseURLs (OpenAI (config m))
                                ! (unat (roundRobinCounter m)
                                   mod length (BaseURLs (OpenAI (config m))))\<rparr>,
                 m\<lparr>roundRobinCounter := roundRobinCounter m + 1\<rparr>)"
proof -
  let ?n = "length (BaseURLs (OpenAI (config m)))"
  from assms(1) have pos: "0 < ?n" by linarith
  note u = uint64_len [OF pos assms(2)]
  have "unat (roundRobinCounter m) mod ?n < ?n" using pos by simp
  moreover from assms(1) have "1 < ?n" by linarith
  ultimately show ?thesis
    using u by (simp add: GetOpenAIConfig_def Let_def)
qed

lemma calls_round_robin:
  assumes "2 \<le> length (BaseURLs (OpenAI (config m)))"
    and "length (BaseURLs (OpenAI (config m))) < 2 ^ 63"
  shows "calls k m =
           Some (map (\<lambda>i. (OpenAI (config m))
                            \<lparr>BaseURL := BaseURLs (OpenAI (config m))
                               ! (unat (roundRobinCounter m + of_nat i)
                                  mod length (BaseURLs (OpenAI (config m))))\<rparr>) [0..<k],
                 m\<lparr>roundRobinCounter := roundRobinCounter m + of_nat k\<rparr>)"
  using assms
proof (induction k arbitrary: m)
  case 0
  then show ?case by simp
next
  case (Suc k)
  let ?m' = "m\<lparr>roundRobinCounter := roundRobinCounter m + 1\<rparr>"
  have ih: "calls k ?m' =
           Some (map (\<lambda>i. (OpenAI (config ?m'))
                            \<lparr>BaseURL := BaseURLs (OpenAI (config ?m'))
                               ! (unat (roundRobinCounter ?m' + of_nat i)
                                  mod length (BaseURLs (OpenAI (config ?m'))))\<rparr>) [0..<k],
                 ?m'\<lparr>roundRobinCounter := roundRobinCounter ?m' + of_nat k\<rparr>)"
    by (rule Suc.IH) (use Suc.prems in simp_all)
  have shift: "[0..<Suc k] = 0 # map Suc [0..<k]"
    by (simp add: upt_conv_Cons map_Suc_upt del: upt_Suc)
  show ?case
    unfolding shift
    by (simp add: GetOpenAIConfig_step [OF Suc.prems] ih add.assoc del: upt_Suc)
qed

lemma calls_single:
  assumes "BaseURLs (OpenAI (config m)) = [u]"
  shows "calls k m = Some (replicate k ((OpenAI (config m))\<lparr>BaseURL := u\<rparr>), m)"
proof -
  from assms have "GetOpenAIConfig m = Some ((OpenAI (config m))\<lparr>BaseURL := u\<rparr>, m)"
    by (simp add: GetOpenAIConfig_def Let_def)
  then show ?thesis by (induction k) simp_all
qed

lemma selected_round_robin:
  assumes "2 \<le> length (BaseURLs (OpenAI (config m)))"
    and "length (BaseURLs (OpenAI (config m))) < 2 ^ 63"
    and "1 \<le> k"
  shows "selected k m =
           Some (BaseURLs (OpenAI (config m))
                 ! (unat (roundRobinCounter m + of_nat (k - 1))
                    mod length (BaseURLs (OpenAI (config m)))))"
proof -
  from assms(3) have "k - 1 < k" and "k \<noteq> 0" by simp_all
  then show ?thesis
    unfolding selected_def calls_round_robin [OF assms(1,2)]
    by (simp del: upt_Suc)
qed

lemma default_urls:
  "BaseURLs (OpenAI (config (candidate (\<lambda>k. [])))) = [''https://api.openai.com'']"
  by (simp add: candidate_def assemble_def parseArray_def)

lemma parseArray_abc:
  "parseArray ''http://a,http://b,http://c'' d = [''http://a'', ''http://b'', ''http://c'']"
  by code_simp

lemma three_urls:
  "BaseURLs (OpenAI (config (candidate ((\<lambda>k. [])(''OPENAI_BASE_URL'' := ''http://a,http://b,http://c'')))))
     = [''http://a'', ''http://b'', ''http://c'']"
  by (simp add: candidate_def assemble_def parseArray_abc)

lemma validated_nonempty:
  assumes "Validate p m = None"
  shows "validationErrors p m = []" and "BaseURLs (OpenAI (config m)) \<noteq> []"
proof -
  from assms show e: "validationErrors p m = []"
    by (simp add: Validate_def Let_def split: if_splits)
  show "BaseURLs (OpenAI (config m)) \<noteq> []"
  proof
    assume "BaseURLs (OpenAI (config m)) = []"
    then have "''at least one upstream API URL is required'' \<in> set (validationErrors p m)"
      unfolding validationErrors_eq by simp
    with e show False by simp
  qed
qed

lemma default_valid: "Validate missing_scheme (candidate (\<lambda>k. [])) = None"
  by (simp add: Validate_def validationErrors_eq candidate_def assemble_def parseInteger_def
      parseArray_def DefaultConstants_def missing_scheme_def)

lemma three_valid:
  "Validate missing_scheme
     (candidate ((\<lambda>k. [])(''OPENAI_BASE_URL'' := ''http://a,http://b,http://c''))) = None"
  by (simp add: Validate_def validationErrors_eq candidate_def assemble_def parseInteger_def
      parseArray_abc DefaultConstants_def missing_scheme_def)

lemma upt_9: "[0..<9] = [0, 1, 2, 3, 4, 5, 6, 7, 8]"
  by (simp add: upt_rec)

section \<open>Lemmas about validation\<close>

lemma Validate_eq:
  "Validate p m =
     (if validationErrors p m = [] then None
      else Some \<lparr>Code = ErrConfigValidation, Message = ''Configuration validation failed'',
                 Details = Join (validationErrors p m) ''; ''\<rparr>)"
  by (simp add: Validate_def NewAppErrorWithDetails_def Let_def)

lemma NewManager_eq:
  "NewManager p getenv =
     (case Validate p (candidate getenv) of
        None \<Rightarrow> Inr (candidate getenv)
      | Some err \<Rightarrow> Inl err)"
  by (simp add: NewManager_def candidate_def Let_def split: option.splits)

lemma Atoi_samples:
  "Atoi ''0'' = Some 0" "Atoi ''-1'' = Some (- 1)" "Atoi ''65536'' = Some 65536"
  "Atoi ''7860'' = Some 7860" "Atoi ''65535'' = Some 65535" "Atoi ''-5'' = Some (- 5)"
  by code_simp+

lemma default_env_valid: "validationErrors missing_scheme (candidate (\<lambda>k. [])) = []"
  by (simp add: validationErrors_eq candidate_def assemble_def parseInteger_def
      parseArray_def DefaultConstants_def missing_scheme_def)

lemma url_messages:
  "filter (prefix ''invalid upstream API URL format: '') (validationErrors p m)
     = map (\<lambda>u. ''invalid upstream API URL format: '' @ u)
         (filter p (BaseURLs (OpenAI (config m))))"
proof -
  have "filter (prefix x) (map (\<lambda>u. x @ u) us) = map (\<lambda>u. x @ u) us" for x :: string and us
    by (induction us) simp_all
  then show ?thesis
    unfolding validationErrors_eq by simp
qed

lemma Atoi_Nil: "Atoi [] = None"
  by (simp add: Atoi_def)

lemma parseInteger_eq:
  "parseInteger v d = (case Atoi v of Some parsed \<Rightarrow> parsed | None \<Rightarrow> d)"
  by (simp add: parseInteger_def Atoi_Nil)

lemma parseInteger_negative:
  "parseInteger v d < 0 \<longleftrightarrow> (\<exists>n. Atoi v = Some n \<and> n < 0) \<or> (Atoi v = None \<and> d < 0)"
  by (cases "Atoi v") (simp_all add: parseInteger_eq)

lemma port_message:
  "''port must be between 1-65535'' \<in> set (validationErrors p m)
     \<longleftrightarrow> Port (Server (config m)) < 1 \<or> 65535 < Port (Server (config m))"
  unfolding validationErrors_eq by auto

lemma port_only:
  assumes "v \<noteq> []"
  shows "validationErrors missing_scheme (candidate ((\<lambda>k. [])(''PORT'' := v)))
         = (if parseInteger v 7860 < 1 \<or> 65535 < parseInteger v 7860
            then [''port must be between 1-65535''] else [])"
proof -
  let ?m = "candidate ((\<lambda>k. [])(''PORT'' := v))"
  have f: "Port (Server (config ?m)) = parseInteger v 7860" "StartIndex (Keys (config ?m)) = 0"
    "BlacklistThreshold (Keys (config ?m)) = 1" "RequestTimeout (OpenAI (config ?m)) = 30"
    "MaxConcurrentRequests (Performance (config ?m)) = 100"
    "BaseURLs (OpenAI (config ?m)) = [''https://api.openai.com'']"
    by (simp_all add: candidate_def assemble_def parseInteger_def parseArray_def
        DefaultConstants_def)
  show ?thesis
    by (simp add: validationErrors_eq f missing_scheme_def)
qed

section \<open>Lemmas about \<open>url.Parse\<close>\<close>

lemma leading_colon_rejected: "missing_scheme u \<Longrightarrow> url_Parse_err u"
proof -
  assume "missing_scheme u"
  then obtain cs where u: "u = CHR '':'' # cs"
    by (cases u) (auto simp: missing_scheme_def)
  have g: "getScheme (CHR '':'' # r) = None" for r
    by (simp add: getScheme_def alpha_def is_digit_def byte_def)
  have "parse_err (CHR '':'' # r)" for r
    by (simp add: parse_err_def g)
  then show "url_Parse_err u"
    by (simp add: url_Parse_err_def u Let_def)
qed

lemma url_samples:
  "\<not> url_Parse_err ''https://api.openai.com''" "\<not> url_Parse_err ''http://b''"
  "url_Parse_err ''http://a b.com''"
  "\<not> url_Parse_err ''not a url''" "\<not> url_Parse_err ''api.openai.com''"
  "\<not> scheme_host_well_formed ''not a url''" "\<not> scheme_host_well_formed ''api.openai.com''"
  "\<not> scheme_host_well_formed ''http://a b.com''"
  "scheme_host_well_formed ''https://api.openai.com''" "scheme_host_well_formed ''http://b''"
  by code_simp+

lemma parseArray_malformed_host:
  "parseArray ''https://api.openai.com,http://a b.com,http://b'' d
     = [''https://api.openai.com'', ''http://a b.com'', ''http://b'']"
  by code_simp

lemma parseArray_no_scheme:
  "parseArray ''https://api.openai.com,not a url,api.openai.com'' d
     = [''https://api.openai.com'', ''not a url'', ''api.openai.com'']"
  by code_simp

lemma missing_scheme_agrees:
  "url_Parse_err ''https://api.openai.com'' = missing_scheme ''https://api.openai.com''"
  "url_Parse_err ''http://a'' = missing_scheme ''http://a''"
  "url_Parse_err ''http://b'' = missing_scheme ''http://b''"
  "url_Parse_err ''http://c'' = missing_scheme ''http://c''"
  "url_Parse_err ''://bad'' = missing_scheme ''://bad''"
  by code_simp+

section \<open>Lemmas about concurrent callers\<close>
























section \<open>The claims\<close>

subsection \<open>The upstream accessor\<close>

text \<open>
  C4: when the upstream list has exactly one entry, a call of \<open>GetOpenAIConfig\<close> returns
  the section with that entry as its \<open>BaseURL\<close> and leaves the manager as it was, its
  round-robin counter included; so does every call of a sequence of calls.
\<close>

theorem single_upstream_keeps_counter:
  assumes "BaseURLs (OpenAI (config m)) = [u]"
  shows "GetOpenAIConfig m = Some ((OpenAI (config m))\<lparr>BaseURL := u\<rparr>, m)
         \<and> (\<forall>k. \<exists>cs. calls k m = Some (cs, m) \<and> length cs = k
                    \<and> (\<forall>c\<in>set cs. BaseURL c = u))"
proof
  from calls_single [OF assms, of 1] show "GetOpenAIConfig m = Some ((OpenAI (config m))\<lparr>BaseURL := u\<rparr>, m)"
    by (simp split: option.splits prod.splits)
  show "\<forall>k. \<exists>cs. calls k m = Some (cs, m) \<and> length cs = k \<and> (\<forall>c\<in>set cs. BaseURL c = u)"
    by (simp add: calls_single [OF assms])
qed

theorem single_upstream_keeps_counter_witness:
  "BaseURLs (OpenAI (config (candidate (\<lambda>k. [])))) = [''https://api.openai.com'']
   \<and> map_option (BaseURL \<circ> fst) (GetOpenAIConfig (candidate (\<lambda>k. [])))
       = Some ''https://api.openai.com''
   \<and> map_option (roundRobinCounter \<circ> snd) (GetOpenAIConfig (candidate (\<lambda>k. []))) = Some 0
   \<and> map_option (map BaseURL \<circ> fst) (calls 3 (candidate (\<lambda>k. [])))
       = Some [''https://api.openai.com'', ''https://api.openai.com'', ''https://api.openai.com'']
   \<and> map_option (roundRobinCounter \<circ> snd) (calls 3 (candidate (\<lambda>k. []))) = Some 0"
proof -
  note t = single_upstream_keeps_counter [OF default_urls]
  from t have g: "GetOpenAIConfig (candidate (\<lambda>k. []))
      = Some ((OpenAI (config (candidate (\<lambda>k. []))))\<lparr>BaseURL := ''https://api.openai.com''\<rparr>,
              candidate (\<lambda>k. []))" by blast
  have c0: "roundRobinCounter (candidate (\<lambda>k. [])) = 0" by (simp add: candidate_def)
  from t obtain cs where cs: "calls 3 (candidate (\<lambda>k. [])) = Some (cs, candidate (\<lambda>k. []))"
    "length cs = 3" "\<forall>c\<in>set cs. BaseURL c = ''https://api.openai.com''" by blast
  from cs(2) obtain a b c where "cs = [a, b, c]"
    by (auto simp: length_Suc_conv numeral_3_eq_3)
  with cs have "map BaseURL cs = [''https://api.openai.com'', ''https://api.openai.com'', ''https://api.openai.com'']"
    by simp
  with cs(1) g c0 default_urls show ?thesis by simp
qed

text \<open>
  C10: a manager whose configuration passed validation, with its upstream list as long as
  a Go slice can be, answers every call of every sequence of calls, from whatever value
  of the counter, with a \<open>BaseURL\<close> that is a member of the configured \<open>BaseURLs\<close>;
  no call panics, and the configuration stays as it was.
\<close>

theorem selected_url_is_configured:
  assumes "Validate p m = None"
    and "length (BaseURLs (OpenAI (config m))) < 2 ^ 63"
  shows "\<exists>cs m'. calls k m = Some (cs, m') \<and> length cs = k \<and> config m' = config m
           \<and> (\<forall>c\<in>set cs. BaseURL c \<in> set (BaseURLs (OpenAI (config m))))"
proof -
  let ?urls = "BaseURLs (OpenAI (config m))"
  from validated_nonempty(2) [OF assms(1)] have ne: "?urls \<noteq> []" .
  show ?thesis
  proof (cases "length ?urls = 1")
    case True
    then obtain u where u: "?urls = [u]"
      by (cases ?urls) auto
    show ?thesis
      by (simp add: calls_single [OF u] u)
  next
    case False
    moreover from ne have "length ?urls \<noteq> 0" by simp
    ultimately have two: "2 \<le> length ?urls" by linarith
    then have pos: "0 < length ?urls" by linarith
    have "unat w mod length ?urls < length ?urls" for w :: "64 word"
      using pos by simp
    then show ?thesis
      by (simp add: calls_round_robin [OF two assms(2)] del: upt_Suc)
  qed
qed

theorem selected_url_is_configured_witness:
  "Validate missing_scheme
     (candidate ((\<lambda>k. [])(''OPENAI_BASE_URL'' := ''http://a,http://b,http://c''))) = None
   \<and> length (BaseURLs (OpenAI (config
        (candidate ((\<lambda>k. [])(''OPENAI_BASE_URL'' := ''http://a,http://b,http://c'')))))) = 3
   \<and> (\<exists>cs m'. calls 5 (candidate ((\<lambda>k. [])(''OPENAI_BASE_URL'' := ''http://a,http://b,http://c'')))
                 = Some (cs, m')
          \<and> length cs = 5
          \<and> list_all (\<lambda>c. BaseURL c \<in> {''http://a'', ''http://b'', ''http://c''}) cs)"
proof -
  let ?m = "candidate ((\<lambda>k. [])(''OPENAI_BASE_URL'' := ''http://a,http://b,http://c''))"
  have l: "length (BaseURLs (OpenAI (config ?m))) < 2 ^ 63"
    by (simp add: three_urls)
  from selected_url_is_configured [OF three_valid l, of 5]
  obtain cs m' where c: "calls 5 ?m = Some (cs, m')" "length cs = 5"
    "\<forall>c\<in>set cs. BaseURL c \<in> set (BaseURLs (OpenAI (config ?m)))"
    by blast
  from c(3) have "list_all (\<lambda>c. BaseURL c \<in> {''http://a'', ''http://b'', ''http://c''}) cs"
    by (simp add: three_urls list_all_iff)
  with c(1,2) have "\<exists>cs m'. calls 5 ?m = Some (cs, m') \<and> length cs = 5
          \<and> list_all (\<lambda>c. BaseURL c \<in> {''http://a'', ''http://b'', ''http://c''}) cs"
    by blast
  moreover have "length (BaseURLs (OpenAI (config ?m))) = 3"
    by (simp add: three_urls)
  ultimately show ?thesis
    using three_valid by blast
qed

text \<open>
  C1, as amended: with two or more upstream URLs and the counter at zero, the \<open>k\<close>-th
  call of a single caller returns \<open>BaseURLs[((k - 1) mod 2 ^ 64) mod n]\<close>, the counter
  being a 64-bit word; that is \<open>BaseURLs[(k - 1) mod n]\<close> for every \<open>k\<close> up to
  \<open>2 ^ 64\<close>. Nine calls over three entries return them in cyclic order from index 0,
  each three times.
\<close>

theorem round_robin_cyclic:
  assumes "roundRobinCounter m = 0"
    and "2 \<le> length (BaseURLs (OpenAI (config m)))"
    and "length (BaseURLs (OpenAI (config m))) < 2 ^ 63"
    and "1 \<le> k"
  shows "selected k m =
           Some (BaseURLs (OpenAI (config m))
                 ! (((k - 1) mod 2 ^ 64) mod length (BaseURLs (OpenAI (config m)))))
         \<and> (k \<le> 2 ^ 64 \<longrightarrow>
              selected k m =
                Some (BaseURLs (OpenAI (config m))
                      ! ((k - 1) mod length (BaseURLs (OpenAI (config m))))))
         \<and> (\<forall>a b c. BaseURLs (OpenAI (config m)) = [a, b, c] \<longrightarrow>
              map_option (map BaseURL \<circ> fst) (calls 9 m) = Some [a, b, c, a, b, c, a, b, c])"
proof -
  let ?urls = "BaseURLs (OpenAI (config m))"
  have u: "unat (roundRobinCounter m + of_nat (k - 1)) = (k - 1) mod 2 ^ 64"
    by (simp add: assms(1) unat_of_nat)
  have sel: "selected k m = Some (?urls ! (((k - 1) mod 2 ^ 64) mod length ?urls))"
    using selected_round_robin [OF assms(2,3,4)] by (simp only: u)
  moreover have "selected k m = Some (?urls ! ((k - 1) mod length ?urls))" if "k \<le> 2 ^ 64"
  proof -
    from that assms(4) have "k - 1 < 2 ^ 64" by simp
    then have "(k - 1) mod 2 ^ 64 = k - 1" by simp
    with sel show ?thesis by simp
  qed
  moreover have "map_option (map BaseURL \<circ> fst) (calls 9 m) = Some [a, b, c, a, b, c, a, b, c]"
    if "?urls = [a, b, c]" for a b c
    unfolding calls_round_robin [OF assms(2,3)] upt_9
    by (simp add: assms(1) that)
  ultimately show ?thesis by blast
qed

theorem round_robin_cyclic_witness:
  "roundRobinCounter
     (candidate ((\<lambda>k. [])(''OPENAI_BASE_URL'' := ''http://a,http://b,http://c''))) = 0
   \<and> BaseURLs (OpenAI (config
        (candidate ((\<lambda>k. [])(''OPENAI_BASE_URL'' := ''http://a,http://b,http://c'')))))
       = [''http://a'', ''http://b'', ''http://c'']
   \<and> selected 5 (candidate ((\<lambda>k. [])(''OPENAI_BASE_URL'' := ''http://a,http://b,http://c'')))
       = Some ''http://b''
   \<and> map_option (map BaseURL \<circ> fst)
        (calls 9 (candidate ((\<lambda>k. [])(''OPENAI_BASE_URL'' := ''http://a,http://b,http://c''))))
       = Some [''http://a'', ''http://b'', ''http://c'', ''http://a'', ''http://b'', ''http://c'',
               ''http://a'', ''http://b'', ''http://c'']"
proof -
  let ?m = "candidate ((\<lambda>k. [])(''OPENAI_BASE_URL'' := ''http://a,http://b,http://c''))"
  have c0: "roundRobinCounter ?m = 0" by (simp add: candidate_def)
  have l2: "2 \<le> length (BaseURLs (OpenAI (config ?m)))" by (simp add: three_urls)
  have l63: "length (BaseURLs (OpenAI (config ?m))) < 2 ^ 63" by (simp add: three_urls)
  have k: "(1::nat) \<le> 5" by simp
  note t = round_robin_cyclic [OF c0 l2 l63 k]
  from t have "selected 5 ?m = Some ''http://b''"
    by (simp add: three_urls)
  moreover from t three_urls have "map_option (map BaseURL \<circ> fst) (calls 9 ?m)
       = Some [''http://a'', ''http://b'', ''http://c'', ''http://a'', ''http://b'', ''http://c'',
               ''http://a'', ''http://b'', ''http://c'']"
    by blast
  ultimately show ?thesis using c0 three_urls by simp
qed

text \<open>
  The claim as stated, for every \<open>k\<close>, fails once the counter has wrapped: over three
  entries the call number \<open>2 ^ 64 + 1\<close> returns the first entry, where
  \<open>BaseURLs[(k - 1) mod n]\<close> is the second.
\<close>

theorem round_robin_wraps_counterexample:
  "Validate missing_scheme
     (candidate ((\<lambda>k. [])(''OPENAI_BASE_URL'' := ''http://a,http://b,http://c''))) = None
   \<and> roundRobinCounter
       (candidate ((\<lambda>k. [])(''OPENAI_BASE_URL'' := ''http://a,http://b,http://c''))) = 0
   \<and> BaseURLs (OpenAI (config
        (candidate ((\<lambda>k. [])(''OPENAI_BASE_URL'' := ''http://a,http://b,http://c'')))))
       = [''http://a'', ''http://b'', ''http://c'']
   \<and> selected (2 ^ 64 + 1)
        (candidate ((\<lambda>k. [])(''OPENAI_BASE_URL'' := ''http://a,http://b,http://c'')))
       = Some ''http://a''
   \<and> [''http://a'', ''http://b'', ''http://c''] ! ((2 ^ 64 + 1 - 1) mod 3) = ''http://b''"
proof -
  let ?m = "candidate ((\<lambda>k. [])(''OPENAI_BASE_URL'' := ''http://a,http://b,http://c''))"
  have c0: "roundRobinCounter ?m = 0" by (simp add: candidate_def)
  have l2: "2 \<le> length (BaseURLs (OpenAI (config ?m)))" by (simp add: three_urls)
  have l63: "length (BaseURLs (OpenAI (config ?m))) < 2 ^ 63" by (simp add: three_urls)
  have k: "(1::nat) \<le> 2 ^ 64 + 1" by simp
  have w: "unat (roundRobinCounter ?m + of_nat (2 ^ 64 + 1 - 1)) = 0"
    by (simp add: c0 unat_of_nat)
  have "selected (2 ^ 64 + 1) ?m = Some ''http://a''"
    using selected_round_robin [OF l2 l63 k] by (simp only: w) (simp add: three_urls)
  moreover have "[''http://a'', ''http://b'', ''http://c''] ! ((2 ^ 64 + 1 - 1) mod 3) = ''http://b''"
    by simp
  ultimately show ?thesis using c0 three_urls three_valid by simp
qed




subsection \<open>The validator\<close>

text \<open>
  C2: \<open>Validate\<close> runs every check whatever the earlier ones found: the violation list
  is the concatenation of what each check contributes on its own. It returns one error,
  of code \<open>ErrConfigValidation\<close>, whose details are all the messages joined by
  \<open>''; ''\<close>, so that each message stands in the details, or no error when there is no
  violation. A port out of range, a negative start index and an empty upstream list give
  at least three messages, and exactly these three when the other fields pass their
  checks. \<open>NewManager\<close> returns the manager holding the assembled configuration as it
  is when validation passes, and the error otherwise.
\<close>

theorem Validate_aggregates_all_violations:
  "validationErrors p m =
     (if Port (Server (config m)) < 1 \<or> 65535 < Port (Server (config m))
      then [''port must be between 1-65535''] else [])
     @ (if StartIndex (Keys (config m)) < 0
        then [''start index cannot be less than 0''] else [])
     @ (if BlacklistThreshold (Keys (config m)) < 1
        then [''blacklist threshold cannot be less than 1''] else [])
     @ (if RequestTimeout (OpenAI (config m)) < 1
        then [''request timeout cannot be less than 1s''] else [])
     @ (if BaseURLs (OpenAI (config m)) = []
        then [''at least one upstream API URL is required''] else [])
     @ map (\<lambda>u. ''invalid upstream API URL format: '' @ u)
         (filter p (BaseURLs (OpenAI (config m))))
     @ (if MaxConcurrentRequests (Performance (config m)) < 1
        then [''max concurrent requests cannot be less than 1''] else [])
   \<and> Validate p m =
       (if validationErrors p m = [] then None
        else Some \<lparr>Code = ErrConfigValidation, Message = ''Configuration validation failed'',
                   Details = Join (validationErrors p m) ''; ''\<rparr>)
   \<and> list_all (\<lambda>e. sublist e (Join (validationErrors p m) ''; '')) (validationErrors p m)
   \<and> ((Port (Server (config m)) < 1 \<or> 65535 < Port (Server (config m)))
        \<and> StartIndex (Keys (config m)) < 0 \<and> BaseURLs (OpenAI (config m)) = []
      \<longrightarrow> 3 \<le> length (validationErrors p m)
          \<and> (1 \<le> BlacklistThreshold (Keys (config m)) \<and> 1 \<le> RequestTimeout (OpenAI (config m))
               \<and> 1 \<le> MaxConcurrentRequests (Performance (config m))
             \<longrightarrow> validationErrors p m =
                   [''port must be between 1-65535'', ''start index cannot be less than 0'',
                    ''at least one upstream API URL is required'']))
   \<and> NewManager p getenv =
       (case Validate p (candidate getenv) of
          None \<Rightarrow> Inr (candidate getenv)
        | Some err \<Rightarrow> Inl err)"
proof (intro conjI)
  show "list_all (\<lambda>e. sublist e (Join (validationErrors p m) ''; '')) (validationErrors p m)"
    by (simp add: list_all_iff sublist_Join)
  show "(Port (Server (config m)) < 1 \<or> 65535 < Port (Server (config m)))
        \<and> StartIndex (Keys (config m)) < 0 \<and> BaseURLs (OpenAI (config m)) = []
      \<longrightarrow> 3 \<le> length (validationErrors p m)
          \<and> (1 \<le> BlacklistThreshold (Keys (config m)) \<and> 1 \<le> RequestTimeout (OpenAI (config m))
               \<and> 1 \<le> MaxConcurrentRequests (Performance (config m))
             \<longrightarrow> validationErrors p m =
                   [''port must be between 1-65535'', ''start index cannot be less than 0'',
                    ''at least one upstream API URL is required''])"
    unfolding validationErrors_eq by simp
qed (rule validationErrors_eq Validate_eq NewManager_eq)+

theorem Validate_aggregates_all_violations_witness:
  "Port (Server (config (with_urls []
       (candidate ((\<lambda>k. [])(''PORT'' := ''0'', ''START_INDEX'' := ''-1'')))))) = 0
   \<and> StartIndex (Keys (config (with_urls []
       (candidate ((\<lambda>k. [])(''PORT'' := ''0'', ''START_INDEX'' := ''-1'')))))) = - 1
   \<and> BaseURLs (OpenAI (config (with_urls []
       (candidate ((\<lambda>k. [])(''PORT'' := ''0'', ''START_INDEX'' := ''-1'')))))) = []
   \<and> validationErrors missing_scheme (with_urls []
       (candidate ((\<lambda>k. [])(''PORT'' := ''0'', ''START_INDEX'' := ''-1''))))
      = [''port must be between 1-65535'', ''start index cannot be less than 0'',
         ''at least one upstream API URL is required'']
   \<and> Validate missing_scheme (with_urls []
       (candidate ((\<lambda>k. [])(''PORT'' := ''0'', ''START_INDEX'' := ''-1''))))
      = Some \<lparr>Code = ErrConfigValidation, Message = ''Configuration validation failed'',
               Details = ''port must be between 1-65535; start index cannot be less than 0; at least one upstream API URL is required''\<rparr>
   \<and> NewManager missing_scheme (\<lambda>k. []) = Inr (candidate (\<lambda>k. []))"
proof -
  let ?m = "with_urls [] (candidate ((\<lambda>k. [])(''PORT'' := ''0'', ''START_INDEX'' := ''-1'')))"
  note t = Validate_aggregates_all_violations [of missing_scheme ?m "\<lambda>k. []"]
  have f: "Port (Server (config ?m)) = 0" "StartIndex (Keys (config ?m)) = - 1"
    "BaseURLs (OpenAI (config ?m)) = []"
    "BlacklistThreshold (Keys (config ?m)) = 1" "RequestTimeout (OpenAI (config ?m)) = 30"
    "MaxConcurrentRequests (Performance (config ?m)) = 100"
    by (simp_all add: with_urls_def candidate_def assemble_def parseInteger_def Atoi_samples
        DefaultConstants_def)
  from t f have v: "validationErrors missing_scheme ?m
      = [''port must be between 1-65535'', ''start index cannot be less than 0'',
         ''at least one upstream API URL is required'']"
    by simp
  from t have "Validate missing_scheme ?m =
       (if validationErrors missing_scheme ?m = [] then None
        else Some \<lparr>Code = ErrConfigValidation, Message = ''Configuration validation failed'',
                   Details = Join (validationErrors missing_scheme ?m) ''; ''\<rparr>)"
    by blast
  then have e: "Validate missing_scheme ?m
      = Some \<lparr>Code = ErrConfigValidation, Message = ''Configuration validation failed'',
               Details = ''port must be between 1-65535; start index cannot be less than 0; at least one upstream API URL is required''\<rparr>"
    by (simp add: v)
  from t have "NewManager missing_scheme (\<lambda>k. []) =
       (case Validate missing_scheme (candidate (\<lambda>k. [])) of
          None \<Rightarrow> Inr (candidate (\<lambda>k. []))
        | Some err \<Rightarrow> Inl err)"
    by blast
  then have n: "NewManager missing_scheme (\<lambda>k. []) = Inr (candidate (\<lambda>k. []))"
    by (simp add: Validate_eq default_env_valid)
  from f v e n show ?thesis by simp
qed

text \<open>
  C3, as amended: when the upstream list holds a URL that \<open>url.Parse\<close> rejects, whatever
  else it holds, validation fails, and the violation message of that URL, which ends with
  the URL itself, is in the list and in the details of the error. The messages of this
  kind are one for each rejected entry, in the order of the list, and there is none for
  an entry that \<open>url.Parse\<close> accepts, whether or not it has a scheme and a host.
\<close>

theorem malformed_url_reported_by_value:
  assumes "u \<in> set (BaseURLs (OpenAI (config m)))" and "p u"
  shows "(\<exists>err. Validate p m = Some err \<and> Code err = ErrConfigValidation
            \<and> sublist (''invalid upstream API URL format: '' @ u) (Details err))
         \<and> ''invalid upstream API URL format: '' @ u \<in> set (validationErrors p m)
         \<and> filter (prefix ''invalid upstream API URL format: '') (validationErrors p m)
             = map (\<lambda>u. ''invalid upstream API URL format: '' @ u)
                 (filter p (BaseURLs (OpenAI (config m))))"
proof -
  from assms have "u \<in> set (filter p (BaseURLs (OpenAI (config m))))" by simp
  then have mem: "''invalid upstream API URL format: '' @ u \<in> set (validationErrors p m)"
    unfolding validationErrors_eq by simp
  then have ne: "validationErrors p m \<noteq> []" by auto
  from mem have "sublist (''invalid upstream API URL format: '' @ u)
                   (Join (validationErrors p m) ''; '')"
    by (rule sublist_Join)
  with ne have "\<exists>err. Validate p m = Some err \<and> Code err = ErrConfigValidation
            \<and> sublist (''invalid upstream API URL format: '' @ u) (Details err)"
    by (simp add: Validate_eq)
  with mem url_messages show ?thesis by blast
qed

theorem malformed_url_reported_by_value_witness:
  "BaseURLs (OpenAI (config (candidate
      ((\<lambda>k. [])(''OPENAI_BASE_URL'' := ''https://api.openai.com,http://a b.com,http://b'')))))
     = [''https://api.openai.com'', ''http://a b.com'', ''http://b'']
   \<and> url_Parse_err ''http://a b.com'' \<and> url_Parse_err ''://bad''
   \<and> \<not> url_Parse_err ''https://api.openai.com'' \<and> \<not> url_Parse_err ''http://b''
   \<and> validationErrors url_Parse_err (candidate
        ((\<lambda>k. [])(''OPENAI_BASE_URL'' := ''https://api.openai.com,http://a b.com,http://b'')))
       = [''invalid upstream API URL format: http://a b.com'']
   \<and> Validate url_Parse_err (candidate
        ((\<lambda>k. [])(''OPENAI_BASE_URL'' := ''https://api.openai.com,http://a b.com,http://b'')))
       = Some \<lparr>Code = ErrConfigValidation, Message = ''Configuration validation failed'',
                Details = ''invalid upstream API URL format: http://a b.com''\<rparr>"
proof -
  let ?m = "candidate
        ((\<lambda>k. [])(''OPENAI_BASE_URL'' := ''https://api.openai.com,http://a b.com,http://b''))"
  have us: "BaseURLs (OpenAI (config ?m))
              = [''https://api.openai.com'', ''http://a b.com'', ''http://b'']"
    by (simp add: candidate_def assemble_def parseArray_malformed_host)
  have u: "''http://a b.com'' \<in> set (BaseURLs (OpenAI (config ?m)))"
    by (simp add: us)
  note p = url_samples(3)
  note t = malformed_url_reported_by_value [of "''http://a b.com''" ?m url_Parse_err, OF u p]
  have f: "Port (Server (config ?m)) = 7860" "StartIndex (Keys (config ?m)) = 0"
    "BlacklistThreshold (Keys (config ?m)) = 1" "RequestTimeout (OpenAI (config ?m)) = 30"
    "MaxConcurrentRequests (Performance (config ?m)) = 100"
    by (simp_all add: candidate_def assemble_def parseInteger_def DefaultConstants_def)
  have v: "validationErrors url_Parse_err ?m = [''invalid upstream API URL format: http://a b.com'']"
    by (simp add: validationErrors_eq f us url_samples)
  from t obtain err where "Validate url_Parse_err ?m = Some err" by blast
  then have "Validate url_Parse_err ?m
       = Some \<lparr>Code = ErrConfigValidation, Message = ''Configuration validation failed'',
                Details = ''invalid upstream API URL format: http://a b.com''\<rparr>"
    by (simp add: Validate_eq v)
  moreover have "url_Parse_err ''://bad''"
    by (rule leading_colon_rejected) (simp add: missing_scheme_def)
  moreover have "\<not> url_Parse_err ''https://api.openai.com''" "\<not> url_Parse_err ''http://b''"
    by (simp_all add: missing_scheme_agrees missing_scheme_def)
  ultimately show ?thesis using v us p by simp
qed

text \<open>
  The claim as stated fails: \<open>url.Parse\<close> takes a string with no scheme and no host
  for a relative reference, so a list that holds \<open>not a url\<close> and \<open>api.openai.com\<close>
  passes validation and \<open>NewManager\<close> succeeds.
\<close>

theorem url_without_scheme_accepted_counterexample:
  "\<not> scheme_host_well_formed ''not a url'' \<and> \<not> scheme_host_well_formed ''api.openai.com''
   \<and> \<not> url_Parse_err ''not a url'' \<and> \<not> url_Parse_err ''api.openai.com''
   \<and> BaseURLs (OpenAI (config (candidate
        ((\<lambda>k. [])(''OPENAI_BASE_URL'' := ''https://api.openai.com,not a url,api.openai.com'')))))
       = [''https://api.openai.com'', ''not a url'', ''api.openai.com'']
   \<and> Validate url_Parse_err (candidate
        ((\<lambda>k. [])(''OPENAI_BASE_URL'' := ''https://api.openai.com,not a url,api.openai.com'')))
       = None
   \<and> NewManager url_Parse_err
        ((\<lambda>k. [])(''OPENAI_BASE_URL'' := ''https://api.openai.com,not a url,api.openai.com''))
       = Inr (candidate
           ((\<lambda>k. [])(''OPENAI_BASE_URL'' := ''https://api.openai.com,not a url,api.openai.com'')))"
proof -
  let ?m = "candidate
        ((\<lambda>k. [])(''OPENAI_BASE_URL'' := ''https://api.openai.com,not a url,api.openai.com''))"
  have us: "BaseURLs (OpenAI (config ?m))
              = [''https://api.openai.com'', ''not a url'', ''api.openai.com'']"
    by (simp add: candidate_def assemble_def parseArray_no_scheme)
  have f: "Port (Server (config ?m)) = 7860" "StartIndex (Keys (config ?m)) = 0"
    "BlacklistThreshold (Keys (config ?m)) = 1" "RequestTimeout (OpenAI (config ?m)) = 30"
    "MaxConcurrentRequests (Performance (config ?m)) = 100"
    by (simp_all add: candidate_def assemble_def parseInteger_def DefaultConstants_def)
  have "validationErrors url_Parse_err ?m = []"
    by (simp add: validationErrors_eq f us url_samples)
  then have v: "Validate url_Parse_err ?m = None"
    by (simp add: Validate_eq)
  then have "NewManager url_Parse_err
        ((\<lambda>k. [])(''OPENAI_BASE_URL'' := ''https://api.openai.com,not a url,api.openai.com''))
       = Inr ?m"
    by (simp add: NewManager_eq)
  with v us url_samples(4,5,6,7) show ?thesis by simp
qed

text \<open>
  C5, as amended: \<open>Validate\<close> does not look at the read, write and idle timeouts of the
  server. Its result is the same whatever they are, so a configuration with a negative
  one passes when the rest does. In the configuration assembled from the environment
  each of the three is negative exactly when its variable parses to a negative integer;
  unset or unparseable it is the default (120, 1800, 120).
\<close>

theorem Validate_ignores_server_timeouts:
  "Validate p (with_timeouts r w i m) = Validate p m
   \<and> (ReadTimeout (Server (assemble getenv)) < 0
        \<longleftrightarrow> (\<exists>n. Atoi (getenv ''SERVER_READ_TIMEOUT'') = Some n \<and> n < 0))
   \<and> (WriteTimeout (Server (assemble getenv)) < 0
        \<longleftrightarrow> (\<exists>n. Atoi (getenv ''SERVER_WRITE_TIMEOUT'') = Some n \<and> n < 0))
   \<and> (IdleTimeout (Server (assemble getenv)) < 0
        \<longleftrightarrow> (\<exists>n. Atoi (getenv ''SERVER_IDLE_TIMEOUT'') = Some n \<and> n < 0))"
proof -
  have "validationErrors p (with_timeouts r w i m) = validationErrors p m"
    unfolding validationErrors_eq by (simp add: with_timeouts_def)
  then have "Validate p (with_timeouts r w i m) = Validate p m"
    by (simp add: Validate_eq)
  then show ?thesis
    by (simp add: assemble_def parseInteger_negative)
qed

theorem Validate_ignores_server_timeouts_witness:
  "Validate missing_scheme (with_timeouts (- 1) (- 2) (- 3) (candidate (\<lambda>k. []))) = None
   \<and> ReadTimeout (Server (config (with_timeouts (- 1) (- 2) (- 3) (candidate (\<lambda>k. []))))) = - 1
   \<and> ReadTimeout (Server (assemble (\<lambda>k. []))) = 120
   \<and> WriteTimeout (Server (assemble (\<lambda>k. []))) = 1800
   \<and> IdleTimeout (Server (assemble (\<lambda>k. []))) = 120"
proof -
  from Validate_ignores_server_timeouts [of missing_scheme "- 1" "- 2" "- 3" "candidate (\<lambda>k. [])"]
  have "Validate missing_scheme (with_timeouts (- 1) (- 2) (- 3) (candidate (\<lambda>k. [])))
          = Validate missing_scheme (candidate (\<lambda>k. []))"
    by blast
  then show ?thesis
    by (simp add: default_valid with_timeouts_def assemble_def parseInteger_def)
qed

text \<open>
  The claim as stated fails: with \<open>SERVER_READ_TIMEOUT=-5\<close> and nothing else set,
  \<open>NewManager\<close> succeeds and the server section it serves has a read timeout of -5.
\<close>

theorem negative_timeout_accepted_counterexample:
  "NewManager missing_scheme ((\<lambda>k. [])(''SERVER_READ_TIMEOUT'' := ''-5''))
     = Inr (candidate ((\<lambda>k. [])(''SERVER_READ_TIMEOUT'' := ''-5'')))
   \<and> Validate missing_scheme (candidate ((\<lambda>k. [])(''SERVER_READ_TIMEOUT'' := ''-5''))) = None
   \<and> ReadTimeout (GetServerConfig (candidate ((\<lambda>k. [])(''SERVER_READ_TIMEOUT'' := ''-5''))))
       = - 5"
proof -
  let ?m = "candidate ((\<lambda>k. [])(''SERVER_READ_TIMEOUT'' := ''-5''))"
  have f: "Port (Server (config ?m)) = 7860" "StartIndex (Keys (config ?m)) = 0"
    "BlacklistThreshold (Keys (config ?m)) = 1" "RequestTimeout (OpenAI (config ?m)) = 30"
    "MaxConcurrentRequests (Performance (config ?m)) = 100"
    "BaseURLs (OpenAI (config ?m)) = [''https://api.openai.com'']"
    "ReadTimeout (Server (config ?m)) = - 5"
    by (simp_all add: candidate_def assemble_def parseInteger_def parseArray_def
        DefaultConstants_def Atoi_samples)
  have "validationErrors missing_scheme ?m = []"
    by (simp add: validationErrors_eq f missing_scheme_def)
  then have v: "Validate missing_scheme ?m = None"
    by (simp add: Validate_eq)
  then have "NewManager missing_scheme ((\<lambda>k. [])(''SERVER_READ_TIMEOUT'' := ''-5'')) = Inr ?m"
    by (simp add: NewManager_eq)
  with v f(7) show ?thesis by (simp add: GetServerConfig_def)
qed

text \<open>
  C6: the port message is among the violations exactly when the port is below 1 or above
  65535. Ports 0 and 65536 fail validation with it; ports 7860 and 65535 do not produce
  it.
\<close>

theorem port_bounds_inclusive:
  "(''port must be between 1-65535'' \<in> set (validationErrors p m)
      \<longleftrightarrow> Port (Server (config m)) < 1 \<or> 65535 < Port (Server (config m)))
   \<and> (Port (Server (config m0)) = 0 \<or> Port (Server (config m0)) = 65536
        \<longrightarrow> Validate p m0 \<noteq> None
            \<and> ''port must be between 1-65535'' \<in> set (validationErrors p m0))
   \<and> (Port (Server (config m1)) = 7860 \<or> Port (Server (config m1)) = 65535
        \<longrightarrow> ''port must be between 1-65535'' \<notin> set (validationErrors p m1))"
proof (intro conjI impI)
  assume a: "Port (Server (config m0)) = 0 \<or> Port (Server (config m0)) = 65536"
  then show "''port must be between 1-65535'' \<in> set (validationErrors p m0)"
    by (auto simp: port_message)
  then have "validationErrors p m0 \<noteq> []" by auto
  then show "Validate p m0 \<noteq> None" by (simp add: Validate_eq)
next
  assume "Port (Server (config m1)) = 7860 \<or> Port (Server (config m1)) = 65535"
  then show "''port must be between 1-65535'' \<notin> set (validationErrors p m1)"
    by (auto simp: port_message)
qed (rule port_message)

theorem port_bounds_inclusive_witness:
  "Port (Server (config (candidate ((\<lambda>k. [])(''PORT'' := ''0''))))) = 0
   \<and> Validate missing_scheme (candidate ((\<lambda>k. [])(''PORT'' := ''0'')))
       = Some \<lparr>Code = ErrConfigValidation, Message = ''Configuration validation failed'',
                Details = ''port must be between 1-65535''\<rparr>
   \<and> Port (Server (config (candidate ((\<lambda>k. [])(''PORT'' := ''65536''))))) = 65536
   \<and> Validate missing_scheme (candidate ((\<lambda>k. [])(''PORT'' := ''65536'')))
       = Some \<lparr>Code = ErrConfigValidation, Message = ''Configuration validation failed'',
                Details = ''port must be between 1-65535''\<rparr>
   \<and> Port (Server (config (candidate ((\<lambda>k. [])(''PORT'' := ''7860''))))) = 7860
   \<and> Validate missing_scheme (candidate ((\<lambda>k. [])(''PORT'' := ''7860''))) = None
   \<and> Port (Server (config (candidate ((\<lambda>k. [])(''PORT'' := ''65535''))))) = 65535
   \<and> Validate missing_scheme (candidate ((\<lambda>k. [])(''PORT'' := ''65535''))) = None"
proof -
  have p0: "Port (Server (config (candidate ((\<lambda>k. [])(''PORT'' := ''0''))))) = 0"
    and p1: "Port (Server (config (candidate ((\<lambda>k. [])(''PORT'' := ''7860''))))) = 7860"
    and p2: "Port (Server (config (candidate ((\<lambda>k. [])(''PORT'' := ''65536''))))) = 65536"
    and p3: "Port (Server (config (candidate ((\<lambda>k. [])(''PORT'' := ''65535''))))) = 65535"
    by (simp_all add: candidate_def assemble_def parseInteger_def Atoi_samples)
  from port_bounds_inclusive [of missing_scheme "candidate ((\<lambda>k. [])(''PORT'' := ''0''))"
      "candidate ((\<lambda>k. [])(''PORT'' := ''0''))" "candidate ((\<lambda>k. [])(''PORT'' := ''7860''))"] p0 p1
  have "Validate missing_scheme (candidate ((\<lambda>k. [])(''PORT'' := ''0''))) \<noteq> None"
    and "''port must be between 1-65535''
           \<notin> set (validationErrors missing_scheme (candidate ((\<lambda>k. [])(''PORT'' := ''7860''))))"
    by simp_all
  then show ?thesis
    using p0 p1 p2 p3
    by (simp add: Validate_eq port_only parseInteger_def Atoi_samples)
qed

subsection \<open>The parsers\<close>

text \<open>
  C7: the integer parser returns the default on the empty string and on a string
  \<open>strconv.Atoi\<close> rejects, and the integer \<open>strconv.Atoi\<close> parsed otherwise, whatever
  its size. The boolean parser returns the default on the empty string, true on a string
  that matches one of \<open>true\<close>, \<open>1\<close>, \<open>yes\<close>, \<open>on\<close> without regard to case, false
  on one that so matches \<open>false\<close>, \<open>0\<close>, \<open>no\<close>, \<open>off\<close>, and the default on any
  other; so with the default false it is true exactly on a match of the first kind, and
  with the default true it is false exactly on a match of the second. Both are total
  functions: no input makes them fail.
\<close>

theorem parsers_degrade_to_default:
  "parseInteger [] d = d
   \<and> (Atoi v0 = None \<longrightarrow> parseInteger v0 d = d)
   \<and> (\<forall>n. Atoi v1 = Some n \<longrightarrow> parseInteger v1 d = n)
   \<and> parseBoolean [] b = b
   \<and> ((\<exists>w\<in>set truthy. eq_ignore_case s1 w) \<longrightarrow> parseBoolean s1 b = True)
   \<and> ((\<exists>w\<in>set falsy. eq_ignore_case s2 w) \<longrightarrow> parseBoolean s2 b = False)
   \<and> (\<not> (\<exists>w\<in>set (truthy @ falsy). eq_ignore_case s3 w) \<longrightarrow> parseBoolean s3 b = b)
   \<and> (parseBoolean s False \<longleftrightarrow> (\<exists>w\<in>set truthy. eq_ignore_case s w))
   \<and> (\<not> parseBoolean s True \<longleftrightarrow> (\<exists>w\<in>set falsy. eq_ignore_case s w))"
proof (intro conjI)
  show "parseInteger [] d = d" by (simp add: parseInteger_def)
  show "Atoi v0 = None \<longrightarrow> parseInteger v0 d = d" by (simp add: parseInteger_eq)
  show "\<forall>n. Atoi v1 = Some n \<longrightarrow> parseInteger v1 d = n" by (simp add: parseInteger_eq)
  show "parseBoolean [] b = b" by (simp add: parseBoolean_def)
  show "(\<exists>w\<in>set truthy. eq_ignore_case s1 w) \<longrightarrow> parseBoolean s1 b = True"
    by (simp add: truthy_match parseBoolean_eq)
  show "(\<exists>w\<in>set falsy. eq_ignore_case s2 w) \<longrightarrow> parseBoolean s2 b = False"
    using truthy_not_falsy [of "ToLower s2"] by (auto simp: falsy_match parseBoolean_eq)
  show "\<not> (\<exists>w\<in>set (truthy @ falsy). eq_ignore_case s3 w) \<longrightarrow> parseBoolean s3 b = b"
    using truthy_match [of s3] falsy_match [of s3] by (auto simp: parseBoolean_eq)
  show "parseBoolean s False \<longleftrightarrow> (\<exists>w\<in>set truthy. eq_ignore_case s w)"
    by (simp add: truthy_match parseBoolean_eq)
  show "\<not> parseBoolean s True \<longleftrightarrow> (\<exists>w\<in>set falsy. eq_ignore_case s w)"
    using truthy_not_falsy [of "ToLower s"] by (auto simp: falsy_match parseBoolean_eq)
qed

theorem parsers_degrade_to_default_witness:
  "Atoi ''12a'' = None \<and> parseInteger ''12a'' 7 = 7
   \<and> Atoi ''70000'' = Some 70000 \<and> parseInteger ''70000'' 7 = 70000
   \<and> parseInteger '''' 7 = 7
   \<and> eq_ignore_case ''YeS'' ''yes'' \<and> parseBoolean ''YeS'' False = True
   \<and> eq_ignore_case ''oFF'' ''off'' \<and> parseBoolean ''oFF'' True = False
   \<and> parseBoolean ''maybe'' True = True \<and> parseBoolean ''maybe'' False = False
   \<and> parseBoolean '''' True = True"
proof -
  have t: "\<exists>w\<in>set truthy. eq_ignore_case ''YeS'' w"
    using parser_samples(3) by (auto simp: truthy_def)
  have f: "\<exists>w\<in>set falsy. eq_ignore_case ''oFF'' w"
    using parser_samples(4) by (auto simp: falsy_def)
  have n: "\<not> (\<exists>w\<in>set (truthy @ falsy). eq_ignore_case ''maybe'' w)"
    using keyword_match [of _ "''maybe''"] parser_samples(5)
    by (auto simp: truthy_def falsy_def)
  from parsers_degrade_to_default [of 7 "''12a''" "''70000''" True "''YeS''" "''oFF''" "''maybe''" "''YeS''"]
    parsers_degrade_to_default [of 7 "''12a''" "''70000''" False "''YeS''" "''oFF''" "''maybe''" "''oFF''"]
    t f n parser_samples
  show ?thesis by simp
qed

text \<open>
  C8, as amended: the list parser returns the default on the empty string; on any other
  it splits on commas (the pieces hold no comma, and joined by commas they are the
  input), trims each piece (what is cut at both ends is white space, and what is left
  neither starts nor ends with white space), drops the empty results, and returns what
  is left, or the default when nothing is left. \<open>a, ,b\<close> gives \<open>a\<close> and \<open>b\<close>. The
  result is the empty list exactly when the parser falls back to a default that is
  itself empty.
\<close>

theorem parseArray_splits_trims_filters:
  "parseArray [] d = d
   \<and> (v \<noteq> [] \<longrightarrow> parseArray v d = (if split_trim_filter v = [] then d else split_trim_filter v))
   \<and> parseArray ''a, ,b'' d = [''a'', ''b'']
   \<and> (v \<noteq> [] \<and> split_trim_filter v = [] \<longrightarrow> parseArray v d = d)
   \<and> (parseArray v d = [] \<longleftrightarrow> d = [] \<and> (v = [] \<or> split_trim_filter v = []))
   \<and> Join (Split v CHR '','') '','' = v
   \<and> (\<forall>p\<in>set (Split v CHR '',''). CHR '','' \<notin> set p)
   \<and> (\<forall>e\<in>set white_space. \<not> prefix e (TrimSpace x) \<and> \<not> suffix e (TrimSpace x))
   \<and> (\<exists>ls rs. set ls \<subseteq> set white_space \<and> set rs \<subseteq> set white_space
          \<and> x = concat ls @ TrimSpace x @ concat rs)"
proof (intro conjI)
  show "parseArray [] d = d" by (simp add: parseArray_def)
  show "v \<noteq> [] \<longrightarrow> parseArray v d = (if split_trim_filter v = [] then d else split_trim_filter v)"
    by (simp add: parseArray_eq)
  show "parseArray ''a, ,b'' d = [''a'', ''b'']" by code_simp
  show "v \<noteq> [] \<and> split_trim_filter v = [] \<longrightarrow> parseArray v d = d"
    by (simp add: parseArray_eq)
  show "parseArray v d = [] \<longleftrightarrow> d = [] \<and> (v = [] \<or> split_trim_filter v = [])"
  proof (cases "v = []")
    case True
    then show ?thesis by (simp add: parseArray_def)
  next
    case False
    then show ?thesis by (simp add: parseArray_eq)
  qed
  show "Join (Split v CHR '','') '','' = v" by (rule Join_Split)
  show "\<forall>p\<in>set (Split v CHR '',''). CHR '','' \<notin> set p" by (simp add: Split_no_sep)
  show "\<forall>e\<in>set white_space. \<not> prefix e (TrimSpace x) \<and> \<not> suffix e (TrimSpace x)"
    by (simp add: TrimSpace_trimmed)
  show "\<exists>ls rs. set ls \<subseteq> set white_space \<and> set rs \<subseteq> set white_space
          \<and> x = concat ls @ TrimSpace x @ concat rs" by (rule TrimSpace_decomp)
qed

theorem parseArray_splits_trims_filters_witness:
  "parseArray ''a, ,b'' [''x''] = [''a'', ''b'']
   \<and> Split ''a, ,b'' CHR '','' = [''a'', '' '', ''b'']
   \<and> split_trim_filter '' , ,'' = [] \<and> parseArray '' , ,'' [''x''] = [''x'']
   \<and> parseArray '''' [''x''] = [''x'']
   \<and> TrimSpace ''  a b  '' = ''a b''
   \<and> TrimSpace [CHR 0xC2, CHR 0xA0, CHR ''a'', CHR 0x09, CHR 0xE3, CHR 0x80, CHR 0x80] = ''a''"
proof -
  have ne: "'' , ,'' \<noteq> []" by simp
  from parseArray_splits_trims_filters [of "[''x'']" "'' , ,''" "''  a b  ''"] ne list_samples
  show ?thesis by simp
qed

text \<open>
  The claim as stated, for every default list, fails for the empty default, the one
  \<open>NewManager\<close> passes for \<open>API_KEYS\<close>: an input that is blank after trimming then
  gives the empty list.
\<close>

theorem parseArray_empty_default_counterexample:
  "'' , ,'' \<noteq> [] \<and> split_trim_filter '' , ,'' = [] \<and> parseArray '' , ,'' [] = []"
  using list_samples by simp

end
